theory Spec2Isabelle
  imports Complex_Main
begin

section \<open>JavaScript values used by the sequence allocator\<close>

text \<open>
  The hooks of \<^verbatim>\<open>models/Ticket.js\<close> and \<^verbatim>\<open>models/ServiceRequest.js\<close> compute
  \<^verbatim>\<open>parseInt(id.replace(/\D/g, ''), 10)\<close>, add one, and print the sum with
  \<^verbatim>\<open>String(..).padStart(6, '0')\<close>. JavaScript numbers are IEEE doubles; the only
  numbers that arise here are non-negative integers, \<^verbatim>\<open>Infinity\<close> and \<^verbatim>\<open>NaN\<close>.
  \<open>Num n\<close> is the double whose exact value is the integer \<open>n\<close>.
\<close>

datatype jsnum = Num nat | PosInfinity | NaN

text \<open>Number of binary digits of \<open>n\<close>.\<close>

fun bitlen :: "nat \<Rightarrow> nat" where
  "bitlen n = (if n = 0 then 0 else Suc (bitlen (n div 2)))"

declare bitlen.simps [simp del]

text \<open>
  Round-to-nearest, ties-to-even, to a 53-bit significand: the integer value of the double
  nearest to the integer \<open>n\<close> (before the overflow test).
\<close>

definition roundDouble :: "nat \<Rightarrow> nat" where
  "roundDouble n =
     (if n < 2 ^ 53 then n
      else let e = bitlen n - 53;
               q = n div 2 ^ e;
               r = n mod 2 ^ e;
               half = 2 ^ (e - 1);
               q' = (if half < r \<or> (r = half \<and> odd q) then q + 1 else q)
           in q' * 2 ^ e)"

definition toDouble :: "nat \<Rightarrow> jsnum" where
  "toDouble n = (let d = roundDouble n in if d < 2 ^ 1024 then Num d else PosInfinity)"

definition isDigit :: "char \<Rightarrow> bool" where
  "isDigit c = (c \<in> set ''0123456789'')"

definition digitVal :: "char \<Rightarrow> nat" where
  "digitVal c = of_char c - of_char CHR ''0''"

text \<open>The integer denoted by a string of decimal digits, most significant first.\<close>

definition decimalValue :: "string \<Rightarrow> nat" where
  "decimalValue ds = foldl (\<lambda>acc c. 10 * acc + digitVal c) 0 ds"

text \<open>
  \<^verbatim>\<open>parseInt(s, 10)\<close> on a string \<open>s\<close> that holds decimal digits only (what
  \<^verbatim>\<open>replace(/\D/g, '')\<close> returns): \<^verbatim>\<open>NaN\<close> on the empty string, else the
  double nearest to the denoted integer (Node's engine rounds the digits correctly; leading
  zeros do not count).
\<close>

definition parseInt10 :: "string \<Rightarrow> jsnum" where
  "parseInt10 ds = (if ds = [] then NaN else toDouble (decimalValue ds))"

text \<open>\<^verbatim>\<open>Number.isFinite\<close>.\<close>

fun isFinite :: "jsnum \<Rightarrow> bool" where
  "isFinite (Num n) = True"
| "isFinite PosInfinity = False"
| "isFinite NaN = False"

text \<open>\<^verbatim>\<open>x + 1\<close> on a double.\<close>

fun plusOne :: "jsnum \<Rightarrow> jsnum" where
  "plusOne (Num n) = toDouble (n + 1)"
| "plusOne PosInfinity = PosInfinity"
| "plusOne NaN = NaN"

definition digitChar :: "nat \<Rightarrow> char" where
  "digitChar d = ''0123456789'' ! d"

fun showNat :: "nat \<Rightarrow> string" where
  "showNat n = (if n < 10 then [digitChar n] else showNat (n div 10) @ [digitChar (n mod 10)])"

declare showNat.simps [simp del]

text \<open>
  \<^verbatim>\<open>Number::toString\<close> prints the shortest decimal digits that read back as the same
  double: the significand \<open>s\<close> of the fewest digits \<open>k\<close> with \<open>s * 10^(n - k)\<close>
  rounding to \<open>v\<close>, the one nearest to \<open>v\<close> when two qualify (the even one on a tie).
  \<open>expDigits v n k\<close> searches from \<open>k\<close> upwards, \<open>n\<close> being the number of decimal
  digits of \<open>v\<close>; it returns the significand and the decimal exponent. With all \<open>n\<close>
  digits the value denotes itself.
\<close>

function expDigits :: "nat \<Rightarrow> nat \<Rightarrow> nat \<Rightarrow> nat \<times> nat" where
  "expDigits v n k =
     (let p = 10 ^ (n - k);
          lo = v div p;
          hi = lo + 1;
          okLo = (roundDouble (lo * p) = v);
          okHi = (roundDouble (hi * p) = v);
          dLo = v - lo * p;
          dHi = hi * p - v;
          pick = (if okLo \<and> okHi
                  then (if dLo < dHi then lo else if dHi < dLo then hi
                        else if even lo then lo else hi)
                  else if okLo then lo else hi)
      in if okLo \<or> okHi
         then (if pick = 10 ^ k then (1, n) else (pick, n - 1))
         else if n \<le> k then (v, n - 1)
         else expDigits v n (Suc k))"
  by pat_completeness auto
termination
  by (relation "measure (\<lambda>(v, n, k). n - k)") auto

declare expDigits.simps [simp del]

definition stripZeros :: "string \<Rightarrow> string" where
  "stripZeros s = rev (dropWhile (\<lambda>c. c = CHR ''0'') (rev s))"

text \<open>The form \<^verbatim>\<open>d.ddde+x\<close> of a significand \<open>s\<close> with decimal exponent \<open>x\<close>.\<close>

definition expNotation :: "nat \<Rightarrow> nat \<Rightarrow> string" where
  "expNotation s x =
     (case stripZeros (showNat s) of
        [] \<Rightarrow> ''0''
      | [d] \<Rightarrow> [d] @ ''e+'' @ showNat x
      | d # rest \<Rightarrow> [d] @ ''.'' @ rest @ ''e+'' @ showNat x)"

text \<open>
  \<^verbatim>\<open>String(x)\<close> on the numbers above. Up to \<open>2^53\<close> every integer is its own double
  and its shortest digits are its own digits. Above, the shortest digits are printed, filled
  with zeros while the number has at most 21 digits, and in exponent notation from
  \<open>10^21\<close> on.
\<close>

fun numberToString :: "jsnum \<Rightarrow> string" where
  "numberToString (Num n) =
     (if n \<le> 2 ^ 53 then showNat n
      else (let (s, x) = expDigits n (length (showNat n)) 1
            in if x < 21 then showNat s @ replicate (x + 1 - length (showNat s)) CHR ''0''
               else expNotation s x))"
| "numberToString PosInfinity = ''Infinity''"
| "numberToString NaN = ''NaN''"

text \<open>\<^verbatim>\<open>s.padStart(w, c)\<close> with a one-character filler.\<close>

definition padStart :: "nat \<Rightarrow> char \<Rightarrow> string \<Rightarrow> string" where
  "padStart w c s = replicate (w - length s) c @ s"

section \<open>Sequence allocation (the \<^verbatim>\<open>pre('validate')\<close> hooks)\<close>

text \<open>
  \<open>prev\<close> is the human identifier of the most recently created record, \<open>None\<close> when the
  collection is empty. An empty identifier is falsy, so it counts as sequence number 0.
\<close>

definition lastSeq :: "string option \<Rightarrow> jsnum" where
  "lastSeq prev =
     (case prev of
        None \<Rightarrow> Num 0
      | Some hid \<Rightarrow> if hid = [] then Num 0 else parseInt10 (filter isDigit hid))"

definition nextSeq :: "string option \<Rightarrow> jsnum" where
  "nextSeq prev = (if isFinite (lastSeq prev) then plusOne (lastSeq prev) else Num 1)"

definition nextHumanId :: "string \<Rightarrow> string option \<Rightarrow> string" where
  "nextHumanId pfx prev = pfx @ padStart 6 CHR ''0'' (numberToString (nextSeq prev))"

section \<open>Documents and collections\<close>

text \<open>
  HTTP outcomes of the controllers: 400, 403, 404 and 500 (the \<^verbatim>\<open>catch\<close> blocks answer
  every thrown error with 500 and write nothing).
\<close>

datatype error = BadRequest | Forbidden | NotFound | ServerError

text \<open>
  Identifiers (\<^verbatim>\<open>_id\<close>, \<^verbatim>\<open>userId\<close>, the members of \<^verbatim>\<open>seenBy\<close>) are the strings
  their \<^verbatim>\<open>toString()\<close> gives; route parameters are taken to be well-formed
  identifiers. Instants are milliseconds since the epoch.
\<close>

record timelineEntry =
  noteText :: string
  entryImages :: "string list"
  addedBy :: string
  addedAt :: int
  seenBy :: "string list"

record pricedEntry = timelineEntry +
  priceList :: "(real \<times> string \<times> real) list"
  totalPrice :: real

record 'e request =
  oid :: string
  userId :: string
  category :: string
  title :: string
  description :: string
  images :: "string list"
  status :: string
  preferredVisitAt :: "int option"
  assignedVisitAt :: "int option"
  timeline :: "'e list"
  location :: "real \<times> real"
  createdAt :: int
  updatedAt :: int

record ticket = "timelineEntry request" +
  ticketId :: string
  viewedByAdmin :: "bool option"

record serviceRequest = "pricedEntry request" +
  requestId :: string
  completedAt :: "int option"
  address :: string
  outletName :: string

text \<open>
  The authenticated principal \<^verbatim>\<open>req.user\<close> set by \<^verbatim>\<open>protect\<close>: a stored user, or the
  transient administrator whose \<^verbatim>\<open>_id\<close> is \<^verbatim>\<open>admin-session-...\<close>.
\<close>

record actor =
  uid :: string
  role :: string
  name :: string

text \<open>
  The user collection. \<^verbatim>\<open>models/User.js\<close> is not among the sources; only the fields
  the controllers read are kept.
\<close>

record user =
  userOid :: string
  userLocation :: "(real option \<times> real option) option"

text \<open>The two library functions that read a date: \<^verbatim>\<open>new Date(s).getTime()\<close>
  (\<open>None\<close> for an invalid date) and the cast of a string to a \<^verbatim>\<open>Date\<close> path
  (\<open>None\<close> for a cast error).\<close>

record dates =
  newDate :: "string \<Rightarrow> int option"
  castDate :: "string \<Rightarrow> int option"

text \<open>A JavaScript string or \<^verbatim>\<open>undefined\<close> is truthy when it is a non-empty string.\<close>

definition truthy :: "string option \<Rightarrow> string option" where
  "truthy v = (case v of None \<Rightarrow> None | Some s \<Rightarrow> if s = [] then None else Some s)"

text \<open>
  Strings are the UTF-8 bytes of the JavaScript strings. \<open>whiteSpace\<close> lists the encodings
  of the code points that \<^verbatim>\<open>String.prototype.trim\<close> strips: the ASCII ones, U+00A0,
  U+1680, U+2000 to U+200A, U+2028, U+2029, U+202F, U+205F, U+3000 and U+FEFF.
\<close>

definition whiteSpace :: "string list" where
  "whiteSpace =
     [[CHR 0x20], [CHR 0x09], [CHR 0x0A], [CHR 0x0B], [CHR 0x0C], [CHR 0x0D],
      [CHR 0xC2, CHR 0xA0], [CHR 0xE1, CHR 0x9A, CHR 0x80],
      [CHR 0xE2, CHR 0x80, CHR 0x80], [CHR 0xE2, CHR 0x80, CHR 0x81], [CHR 0xE2, CHR 0x80, CHR 0x82],
      [CHR 0xE2, CHR 0x80, CHR 0x83], [CHR 0xE2, CHR 0x80, CHR 0x84], [CHR 0xE2, CHR 0x80, CHR 0x85],
      [CHR 0xE2, CHR 0x80, CHR 0x86], [CHR 0xE2, CHR 0x80, CHR 0x87], [CHR 0xE2, CHR 0x80, CHR 0x88],
      [CHR 0xE2, CHR 0x80, CHR 0x89], [CHR 0xE2, CHR 0x80, CHR 0x8A],
      [CHR 0xE2, CHR 0x80, CHR 0xA8], [CHR 0xE2, CHR 0x80, CHR 0xA9], [CHR 0xE2, CHR 0x80, CHR 0xAF],
      [CHR 0xE2, CHR 0x81, CHR 0x9F], [CHR 0xE3, CHR 0x80, CHR 0x80], [CHR 0xEF, CHR 0xBB, CHR 0xBF]]"

definition startsWith :: "string \<Rightarrow> string \<Rightarrow> bool" where
  "startsWith s p = (take (length p) s = p)"

text \<open>\<open>stripLeading ws s\<close> removes from the front of \<open>s\<close> every occurrence of a member
  of \<open>ws\<close>.\<close>

function stripLeading :: "string list \<Rightarrow> string \<Rightarrow> string" where
  "stripLeading ws s =
     (case find (\<lambda>w. w \<noteq> [] \<and> startsWith s w) ws of
        None \<Rightarrow> s
      | Some w \<Rightarrow> stripLeading ws (drop (length w) s))"
  by pat_completeness auto
termination
proof (relation "measure (\<lambda>(ws, s). length s)")
  show "wf (measure (\<lambda>(ws, s). length s))" by simp
next
  fix ws :: "string list" and s w :: string
  assume "find (\<lambda>w. w \<noteq> [] \<and> startsWith s w) ws = Some w"
  then have "w \<noteq> []" and "take (length w) s = w"
    by (auto simp: find_Some_iff startsWith_def)
  then have "s \<noteq> []" by auto
  with \<open>w \<noteq> []\<close> show "((ws, drop (length w) s), (ws, s)) \<in> measure (\<lambda>(ws, s). length s)"
    by simp
qed

declare stripLeading.simps [simp del]

text \<open>The schema option \<^verbatim>\<open>trim: true\<close>: white space goes from both ends.\<close>

definition trim :: "string \<Rightarrow> string" where
  "trim s = rev (stripLeading (map rev whiteSpace) (rev (stripLeading whiteSpace s)))"

definition findById :: "string \<Rightarrow> ('e, 'a) request_scheme list \<Rightarrow> ('e, 'a) request_scheme option" where
  "findById i docs = find (\<lambda>d. oid d = i) docs"

definition findUser :: "string \<Rightarrow> user list \<Rightarrow> user option" where
  "findUser i users = find (\<lambda>u. userOid u = i) users"

text \<open>Writing a changed document back: the stored document with the same \<^verbatim>\<open>_id\<close> is replaced.\<close>

fun replaceDoc :: "('e, 'a) request_scheme \<Rightarrow> ('e, 'a) request_scheme list \<Rightarrow> ('e, 'a) request_scheme list" where
  "replaceDoc d [] = []"
| "replaceDoc d (x # xs) = (if oid x = oid d then d # xs else x # replaceDoc d xs)"

text \<open>\<^verbatim>\<open>.sort({ createdAt: -1 })\<close>: newest first, documents of equal age in stored order.\<close>

definition sortNewest :: "('e, 'a) request_scheme list \<Rightarrow> ('e, 'a) request_scheme list" where
  "sortNewest docs = sort_key (\<lambda>d. - createdAt d) docs"

definition lastCreated :: "('e, 'a) request_scheme list \<Rightarrow> ('e, 'a) request_scheme option" where
  "lastCreated docs = (case sortNewest docs of [] \<Rightarrow> None | d # _ \<Rightarrow> Some d)"

text \<open>The uploaded files of a request and the URL kept for each (the \<^verbatim>\<open>req.files.map\<close>
  of the create and comment handlers).\<close>

record upload =
  path :: "string option"
  secure_url :: "string option"
  url :: "string option"
  filename :: string

definition imageUrl :: "upload \<Rightarrow> string" where
  "imageUrl f =
     (case truthy (path f) of
        Some p \<Rightarrow> if startsWith p ''http'' then p
                  else (case truthy (secure_url f) of Some u \<Rightarrow> u
                        | None \<Rightarrow> (case truthy (url f) of Some u \<Rightarrow> u
                                   | None \<Rightarrow> ''/uploads/'' @ filename f))
      | None \<Rightarrow> (case truthy (secure_url f) of Some u \<Rightarrow> u
                 | None \<Rightarrow> (case truthy (url f) of Some u \<Rightarrow> u
                            | None \<Rightarrow> ''/uploads/'' @ filename f)))"

definition imageUrls :: "upload list option \<Rightarrow> string list" where
  "imageUrls files = (case files of None \<Rightarrow> [] | Some fs \<Rightarrow> map imageUrl fs)"

section \<open>Middleware\<close>

text \<open>\<^verbatim>\<open>adminOnly\<close>: the handler \<open>h\<close> runs for an administrator; anyone else gets 403 and
  the collection \<open>docs\<close> stays as it is.\<close>

definition adminOnly :: "actor \<Rightarrow> 'd list \<Rightarrow> (error + 'r) \<times> 'd list \<Rightarrow> (error + 'r) \<times> 'd list" where
  "adminOnly a docs h = (if role a = ''admin'' then h else (Inl Forbidden, docs))"

section \<open>Creation\<close>

definition ticketCategories :: "string list" where
  "ticketCategories =
     [''CCTV'', ''Fire Alarm'', ''Security Alarm'', ''Electrical'', ''Plumbing'', ''Air Conditioning'']"

definition serviceRequestCategories :: "string list" where
  "serviceRequestCategories =
     [''CCTV'', ''Fire Alarm'', ''Security Alarm'', ''Intruder Alarm'', ''Electrical'', ''Plumbing'',
      ''Air Conditioning'']"

definition serviceRequestStatuses :: "string list" where
  "serviceRequestStatuses = [''New'', ''In Progress'', ''Completed'', ''Rejected'']"

record ticketBody =
  tb_category :: "string option"
  tb_title :: "string option"
  tb_description :: "string option"
  tb_preferredVisitAt :: "string option"
  tb_files :: "upload list option"

text \<open>
  \<^verbatim>\<open>ticketSchema.pre('validate')\<close>: a new document without identifier gets the next one,
  computed from the most recently created ticket of the collection \<open>seen\<close> that the hook
  reads.
\<close>

definition preValidate_ticket :: "ticket list \<Rightarrow> bool \<Rightarrow> ticket \<Rightarrow> ticket" where
  "preValidate_ticket seen isNew t =
     (if \<not> isNew \<or> ticketId t \<noteq> [] then t
      else t\<lparr>ticketId := nextHumanId ''TKT-'' (map_option ticketId (lastCreated seen))\<rparr>)"

text \<open>
  The insert. \<^verbatim>\<open>ticketId\<close> is declared \<^verbatim>\<open>unique: true\<close>, and \<^verbatim>\<open>_id\<close> is unique in any
  collection: a duplicate is rejected by the index and the collection stays as it is.
\<close>

definition insertTicket :: "ticket \<Rightarrow> ticket list \<Rightarrow> error + ticket list" where
  "insertTicket t docs =
     (if (\<exists>d \<in> set docs. ticketId d = ticketId t \<or> oid d = oid t) then Inl ServerError
      else Inr (docs @ [t]))"

text \<open>
  \<^verbatim>\<open>createTicket\<close>, the hook reading the collection \<open>seen\<close> and the insert landing in
  \<open>docs\<close>: between the two the handler awaits, so other requests may have written.
  \<open>newOid\<close> is the \<^verbatim>\<open>_id\<close> the driver generates, \<open>now\<close> the clock.
\<close>

definition createTicketAt ::
  "dates \<Rightarrow> int \<Rightarrow> string \<Rightarrow> user list \<Rightarrow> actor \<Rightarrow> ticketBody \<Rightarrow> ticket list \<Rightarrow> ticket list
   \<Rightarrow> (error + ticket) \<times> ticket list" where
  "createTicketAt env now newOid users a body seen docs =
     (case (truthy (tb_category body), truthy (tb_title body), truthy (tb_description body)) of
        (Some cat, Some ttl, Some descr) \<Rightarrow>
          (case findUser (uid a) users of
             None \<Rightarrow> (Inl BadRequest, docs)
           | Some u \<Rightarrow>
              (case userLocation u of
                 Some (Some lat, Some lng) \<Rightarrow>
                   (let visit = map_option (castDate env) (truthy (tb_preferredVisitAt body));
                        t0 = \<lparr>oid = newOid, userId = uid a, category = cat, title = trim ttl,
                              description = trim descr, images = map trim (imageUrls (tb_files body)),
                              status = ''New'',
                              preferredVisitAt = (case visit of Some (Some ms) \<Rightarrow> Some ms | _ \<Rightarrow> None),
                              assignedVisitAt = None, timeline = [], location = (lat, lng),
                              createdAt = now, updatedAt = now,
                              ticketId = [], viewedByAdmin = Some False\<rparr>;
                        t = preValidate_ticket seen True t0
                    in if cat \<notin> set ticketCategories \<or> title t = [] \<or> description t = []
                          \<or> visit = Some None
                       then (Inl ServerError, docs)
                       else (case insertTicket t docs of
                               Inl e \<Rightarrow> (Inl e, docs)
                             | Inr docs' \<Rightarrow> (Inr t, docs')))
               | _ \<Rightarrow> (Inl BadRequest, docs)))
      | _ \<Rightarrow> (Inl BadRequest, docs))"

text \<open>A creation that no other request interleaves with.\<close>

definition createTicket ::
  "dates \<Rightarrow> int \<Rightarrow> string \<Rightarrow> user list \<Rightarrow> actor \<Rightarrow> ticketBody \<Rightarrow> ticket list
   \<Rightarrow> (error + ticket) \<times> ticket list" where
  "createTicket env now newOid users a body docs = createTicketAt env now newOid users a body docs docs"

record serviceRequestBody =
  sb_category :: "string option"
  sb_title :: "string option"
  sb_description :: "string option"
  sb_preferredVisitAt :: "string option"
  sb_address :: "string option"
  sb_outletName :: "string option"
  sb_location :: "(real option \<times> real option) option"
  sb_files :: "upload list option"

definition preValidate_serviceRequest :: "serviceRequest list \<Rightarrow> bool \<Rightarrow> serviceRequest \<Rightarrow> serviceRequest" where
  "preValidate_serviceRequest seen isNew r =
     (if \<not> isNew \<or> requestId r \<noteq> [] then r
      else r\<lparr>requestId := nextHumanId ''SRV-'' (map_option requestId (lastCreated seen))\<rparr>)"

definition insertServiceRequest :: "serviceRequest \<Rightarrow> serviceRequest list \<Rightarrow> error + serviceRequest list" where
  "insertServiceRequest r docs =
     (if (\<exists>d \<in> set docs. requestId d = requestId r \<or> oid d = oid r) then Inl ServerError
      else Inr (docs @ [r]))"

definition createServiceRequestAt ::
  "dates \<Rightarrow> int \<Rightarrow> string \<Rightarrow> user list \<Rightarrow> actor \<Rightarrow> serviceRequestBody \<Rightarrow> serviceRequest list
   \<Rightarrow> serviceRequest list \<Rightarrow> (error + serviceRequest) \<times> serviceRequest list" where
  "createServiceRequestAt env now newOid users a body seen docs =
     (case (truthy (sb_category body), truthy (sb_title body), truthy (sb_description body),
            truthy (sb_address body), truthy (sb_outletName body), sb_location body) of
        (Some cat, Some ttl, Some descr, Some addr, Some outlet, Some loc) \<Rightarrow>
          (case findUser (uid a) users of
             None \<Rightarrow> (Inl NotFound, docs)
           | Some u \<Rightarrow>
              (case loc of
                 (Some lat, Some lng) \<Rightarrow>
                   (let visit = map_option (castDate env) (truthy (sb_preferredVisitAt body));
                        r0 = \<lparr>oid = newOid, userId = uid a, category = cat, title = trim ttl,
                              description = trim descr, images = map trim (imageUrls (sb_files body)),
                              status = ''New'',
                              preferredVisitAt = (case visit of Some (Some ms) \<Rightarrow> Some ms | _ \<Rightarrow> None),
                              assignedVisitAt = None, timeline = [], location = (lat, lng),
                              createdAt = now, updatedAt = now,
                              requestId = [], completedAt = None, address = trim addr,
                              outletName = trim outlet\<rparr>;
                        r = preValidate_serviceRequest seen True r0
                    in if cat \<notin> set serviceRequestCategories \<or> title r = [] \<or> description r = []
                          \<or> address r = [] \<or> outletName r = [] \<or> visit = Some None
                       then (Inl ServerError, docs)
                       else (case insertServiceRequest r docs of
                               Inl e \<Rightarrow> (Inl e, docs)
                             | Inr docs' \<Rightarrow> (Inr r, docs')))
               | _ \<Rightarrow> (Inl ServerError, docs)))
      | _ \<Rightarrow> (Inl BadRequest, docs))"

definition createServiceRequest ::
  "dates \<Rightarrow> int \<Rightarrow> string \<Rightarrow> user list \<Rightarrow> actor \<Rightarrow> serviceRequestBody \<Rightarrow> serviceRequest list
   \<Rightarrow> (error + serviceRequest) \<times> serviceRequest list" where
  "createServiceRequest env now newOid users a body docs =
     createServiceRequestAt env now newOid users a body docs docs"

section \<open>Reading and listing\<close>

text \<open>
  \<^verbatim>\<open>getTicketById\<close> and \<^verbatim>\<open>getServiceRequestById\<close> (the same code on either
  collection). The owner test reads \<^verbatim>\<open>userId._id\<close> of the populated document, which
  throws when the owner's user record is gone; an administrator never reaches that test.
\<close>

definition getById ::
  "user list \<Rightarrow> actor \<Rightarrow> string \<Rightarrow> ('e, 'a) request_scheme list
   \<Rightarrow> (error + ('e, 'a) request_scheme) \<times> ('e, 'a) request_scheme list" where
  "getById users a i docs =
     (case findById i docs of
        None \<Rightarrow> (Inl NotFound, docs)
      | Some d \<Rightarrow>
          if role a \<noteq> ''admin''
          then (case findUser (userId d) users of
                  None \<Rightarrow> (Inl ServerError, docs)
                | Some u \<Rightarrow> if userOid u \<noteq> uid a then (Inl Forbidden, docs) else (Inr d, docs))
          else (Inr d, docs))"

text \<open>The query string of a listing request; \<open>q_page\<close> and \<open>q_limit\<close> hold what
  \<^verbatim>\<open>parseInt\<close> makes of the parameter (\<open>None\<close> for \<^verbatim>\<open>NaN\<close>).\<close>

record listQuery =
  q_page :: "int option"
  q_limit :: "int option"
  q_showAll :: "string option"

text \<open>\<^verbatim>\<open>getTickets\<close>: the whole filtered collection, newest first.\<close>

definition getTickets :: "actor \<Rightarrow> listQuery \<Rightarrow> ticket list \<Rightarrow> (error + ticket list) \<times> ticket list" where
  "getTickets a q docs =
     (let showAll = (case q_showAll q of None \<Rightarrow> ''false'' | Some s \<Rightarrow> s);
          query = (if role a \<noteq> ''admin'' then (\<lambda>t. userId t = uid a)
                   else if showAll = ''false''
                        then (\<lambda>t. viewedByAdmin t = None \<or> viewedByAdmin t = Some False)
                        else (\<lambda>t. True))
      in (Inr (sortNewest (filter query docs)), docs))"

record 'd listing =
  requests :: "'d list"
  total :: int
  page :: int
  pages :: int
  hasMore :: bool

text \<open>\<^verbatim>\<open>parseInt(x) || dflt\<close>: \<^verbatim>\<open>NaN\<close> and 0 are falsy.\<close>

definition orDefault :: "int option \<Rightarrow> int \<Rightarrow> int" where
  "orDefault v dflt = (case v of None \<Rightarrow> dflt | Some n \<Rightarrow> if n = 0 then dflt else n)"

text \<open>
  \<^verbatim>\<open>getServiceRequests\<close>. The database rejects a negative \<^verbatim>\<open>skip\<close>; the driver sends a
  negative \<^verbatim>\<open>limit\<close> as its absolute value. \<^verbatim>\<open>Math.ceil(total / limit)\<close> is written
  with integer division.
\<close>

definition getServiceRequests ::
  "actor \<Rightarrow> listQuery \<Rightarrow> serviceRequest list \<Rightarrow> (error + serviceRequest listing) \<times> serviceRequest list" where
  "getServiceRequests a q docs =
     (let pg = orDefault (q_page q) 1;
          lim = orDefault (q_limit q) 10;
          skip = (pg - 1) * lim;
          query = (if role a \<noteq> ''admin'' then (\<lambda>r. userId r = uid a) else (\<lambda>r. True));
          found = sortNewest (filter query docs);
          tot = int (length (filter query docs))
      in if skip < 0 then (Inl ServerError, docs)
         else (Inr \<lparr>requests = take (nat \<bar>lim\<bar>) (drop (nat skip) found), total = tot, page = pg,
                     pages = - ((- tot) div lim), hasMore = (pg * lim < tot)\<rparr>, docs))"

section \<open>Status updates\<close>

text \<open>
  \<^verbatim>\<open>updateTicket\<close>. Nothing is written when neither field changes; otherwise
  \<^verbatim>\<open>findOneAndUpdate\<close> with \<^verbatim>\<open>timestamps: false\<close> sets the changed fields (update
  validators are off, the date is cast) and leaves \<^verbatim>\<open>updatedAt\<close> alone.
\<close>

definition findOneAndUpdate_ticket ::
  "dates \<Rightarrow> ticket \<Rightarrow> string option \<Rightarrow> string option \<Rightarrow> ticket list
   \<Rightarrow> (error + ticket) \<times> ticket list" where
  "findOneAndUpdate_ticket env t statusUpdate visitUpdate docs =
     (case map_option (castDate env) visitUpdate of
        Some None \<Rightarrow> (Inl ServerError, docs)
      | cast \<Rightarrow>
          (let t1 = (case statusUpdate of None \<Rightarrow> t | Some s \<Rightarrow> t\<lparr>status := s\<rparr>);
               t' = (case cast of Some (Some ms) \<Rightarrow> t1\<lparr>assignedVisitAt := Some ms\<rparr> | _ \<Rightarrow> t1)
           in (Inr t', replaceDoc t' docs)))"

text \<open>The \<^verbatim>\<open>updateData\<close> of \<^verbatim>\<open>updateTicket\<close>: the fields that differ from the stored
  ticket; \<^verbatim>\<open>toISOString\<close> throws on an invalid date.\<close>

definition statusChange :: "string option \<Rightarrow> ticket \<Rightarrow> string option" where
  "statusChange newStatus t =
     (case truthy newStatus of
        Some s \<Rightarrow> if s \<noteq> status t then Some s else None
      | None \<Rightarrow> None)"

definition visitChange :: "dates \<Rightarrow> string option \<Rightarrow> ticket \<Rightarrow> error + string option" where
  "visitChange env newVisit t =
     (case newVisit of
        None \<Rightarrow> Inr None
      | Some v \<Rightarrow>
          (case newDate env v of
             None \<Rightarrow> Inl ServerError
           | Some ms \<Rightarrow> Inr (if assignedVisitAt t \<noteq> Some ms then Some v else None)))"

definition updateTicket ::
  "dates \<Rightarrow> actor \<Rightarrow> string \<Rightarrow> string option \<Rightarrow> string option \<Rightarrow> ticket list
   \<Rightarrow> (error + ticket) \<times> ticket list" where
  "updateTicket env a i newStatus newVisit docs =
     (if role a \<noteq> ''admin'' then (Inl Forbidden, docs)
      else case findById i docs of
        None \<Rightarrow> (Inl NotFound, docs)
      | Some t \<Rightarrow>
          (case visitChange env newVisit t of
             Inl e \<Rightarrow> (Inl e, docs)
           | Inr visitUpdate \<Rightarrow>
               if statusChange newStatus t = None \<and> visitUpdate = None then (Inr t, docs)
               else findOneAndUpdate_ticket env t (statusChange newStatus t) visitUpdate docs))"

text \<open>
  \<^verbatim>\<open>serviceRequest.save()\<close> after the assignments of \<^verbatim>\<open>updateServiceRequest\<close>:
  \<open>old\<close> is the document as loaded, \<open>new\<close> the document after the assignments. A changed
  \<^verbatim>\<open>status\<close> is validated against the schema's enum; a document on which no path
  changed is not written; a written document gets \<^verbatim>\<open>updatedAt\<close> from the clock.
\<close>

definition saveServiceRequest ::
  "int \<Rightarrow> serviceRequest \<Rightarrow> serviceRequest \<Rightarrow> serviceRequest list
   \<Rightarrow> (error + serviceRequest) \<times> serviceRequest list" where
  "saveServiceRequest now old new docs =
     (if status new \<noteq> status old \<and> status new \<notin> set serviceRequestStatuses
      then (Inl ServerError, docs)
      else if new = old then (Inr old, docs)
      else (let d = new\<lparr>updatedAt := now\<rparr> in (Inr d, replaceDoc d docs)))"

definition updateServiceRequest ::
  "dates \<Rightarrow> int \<Rightarrow> actor \<Rightarrow> string \<Rightarrow> string option \<Rightarrow> string option \<Rightarrow> serviceRequest list
   \<Rightarrow> (error + serviceRequest) \<times> serviceRequest list" where
  "updateServiceRequest env now a i newStatus newVisit docs =
     (if role a \<noteq> ''admin'' then (Inl Forbidden, docs)
      else case findById i docs of
        None \<Rightarrow> (Inl NotFound, docs)
      | Some r \<Rightarrow>
          (let r1 = (case truthy newStatus of
                       None \<Rightarrow> r
                     | Some s \<Rightarrow>
                         (if s = ''Completed'' \<and> status r \<noteq> ''Completed''
                          then r\<lparr>completedAt := Some now\<rparr>
                          else if s \<noteq> ''Completed'' \<and> status r = ''Completed''
                               then r\<lparr>completedAt := None\<rparr>
                               else r)\<lparr>status := s\<rparr>)
           in case truthy newVisit of
                None \<Rightarrow> saveServiceRequest now r r1 docs
              | Some v \<Rightarrow>
                  (case castDate env v of
                     None \<Rightarrow> (Inl ServerError, docs)
                   | Some ms \<Rightarrow> saveServiceRequest now r (r1\<lparr>assignedVisitAt := Some ms\<rparr>) docs)))"

section \<open>Comments\<close>

text \<open>
  \<^verbatim>\<open>addComment\<close> of the ticket controller. The pushed entry is validated by
  \<^verbatim>\<open>save()\<close>: \<^verbatim>\<open>note\<close> (trimmed) and \<^verbatim>\<open>addedBy\<close> are required.
\<close>

definition addComment_ticket ::
  "int \<Rightarrow> actor \<Rightarrow> string \<Rightarrow> string option \<Rightarrow> upload list option \<Rightarrow> ticket list
   \<Rightarrow> (error + ticket) \<times> ticket list" where
  "addComment_ticket now a i note files docs =
     (case truthy note of
        None \<Rightarrow> (Inl BadRequest, docs)
      | Some n \<Rightarrow>
          (case findById i docs of
             None \<Rightarrow> (Inl NotFound, docs)
           | Some t \<Rightarrow>
               if role a \<noteq> ''admin'' \<and> userId t \<noteq> uid a then (Inl Forbidden, docs)
               else (let e = \<lparr>noteText = trim n, entryImages = map trim (imageUrls files),
                               addedBy = name a, addedAt = now, seenBy = []\<rparr>
                     in if noteText e = [] \<or> addedBy e = [] then (Inl ServerError, docs)
                        else (let t' = t\<lparr>timeline := timeline t @ [e], updatedAt := now\<rparr>
                              in (Inr t', replaceDoc t' docs)))))"

text \<open>
  \<^verbatim>\<open>addComment\<close> of the service request controller. \<open>prices\<close> is
  \<^verbatim>\<open>parsedPriceList\<close> (\<open>None\<close> for \<^verbatim>\<open>undefined\<close>), \<open>price\<close> is
  \<^verbatim>\<open>Number(totalPrice)\<close> of a truthy \<^verbatim>\<open>totalPrice\<close>; the schema defaults apply to
  what is undefined.
\<close>

definition addComment_serviceRequest ::
  "int \<Rightarrow> actor \<Rightarrow> string \<Rightarrow> string option \<Rightarrow> upload list option
   \<Rightarrow> (real \<times> string \<times> real) list option \<Rightarrow> real option \<Rightarrow> serviceRequest list
   \<Rightarrow> (error + serviceRequest) \<times> serviceRequest list" where
  "addComment_serviceRequest now a i note files prices price docs =
     (case truthy note of
        None \<Rightarrow> (Inl BadRequest, docs)
      | Some n \<Rightarrow>
          (case findById i docs of
             None \<Rightarrow> (Inl NotFound, docs)
           | Some r \<Rightarrow>
               if role a \<noteq> ''admin'' \<and> userId r \<noteq> uid a then (Inl Forbidden, docs)
               else (let e = \<lparr>noteText = trim n, entryImages = map trim (imageUrls files),
                               addedBy = name a, addedAt = now, seenBy = [],
                               priceList = (case prices of None \<Rightarrow> [] | Some ps \<Rightarrow> ps),
                               totalPrice = (case price of None \<Rightarrow> 0 | Some x \<Rightarrow> x)\<rparr>
                     in if noteText e = [] \<or> addedBy e = [] then (Inl ServerError, docs)
                        else (let r' = r\<lparr>timeline := timeline r @ [e], updatedAt := now\<rparr>
                              in (Inr r', replaceDoc r' docs)))))"

section \<open>Deletion\<close>

text \<open>\<^verbatim>\<open>deleteTicket\<close> and \<^verbatim>\<open>deleteServiceRequest\<close> (the same code on either collection).\<close>

definition deleteById ::
  "actor \<Rightarrow> string \<Rightarrow> ('e, 'a) request_scheme list \<Rightarrow> (error + unit) \<times> ('e, 'a) request_scheme list" where
  "deleteById a i docs =
     (case findById i docs of
        None \<Rightarrow> (Inl NotFound, docs)
      | Some d \<Rightarrow>
          if role a \<noteq> ''admin'' \<and> userId d \<noteq> uid a then (Inl Forbidden, docs)
          else (Inr (), remove1 d docs))"

section \<open>Acknowledging a timeline entry\<close>

text \<open>
  \<^verbatim>\<open>markReplyAsSeen\<close> (the same code in both controllers). \<open>idx\<close> is the array index
  the route parameter denotes; \<^verbatim>\<open>seenBy.includes\<close> compares identifiers by value. The
  document is saved only in the branch that pushes.
\<close>

definition markReplyAsSeen ::
  "int \<Rightarrow> actor \<Rightarrow> string \<Rightarrow> nat \<Rightarrow> ('p timelineEntry_scheme, 'a) request_scheme list
   \<Rightarrow> (error + ('p timelineEntry_scheme, 'a) request_scheme)
      \<times> ('p timelineEntry_scheme, 'a) request_scheme list" where
  "markReplyAsSeen now a i idx docs =
     (case findById i docs of
        None \<Rightarrow> (Inl NotFound, docs)
      | Some d \<Rightarrow>
          if userId d \<noteq> uid a then (Inl Forbidden, docs)
          else if length (timeline d) \<le> idx then (Inl NotFound, docs)
          else (let e = timeline d ! idx
                in if uid a \<notin> set (seenBy e)
                   then (let d' = d\<lparr>timeline := (timeline d)[idx := e\<lparr>seenBy := seenBy e @ [uid a]\<rparr>],
                                    updatedAt := now\<rparr>
                         in (Inr d', replaceDoc d' docs))
                   else (Inr d, docs)))"

section \<open>Bulk mark-viewed\<close>

text \<open>The \<^verbatim>\<open>ticketIds\<close> member of the request body: missing, something that is not an
  array, or an array of strings.\<close>

datatype idsArg = Undefined | NotArray | IdArray "string list"

text \<open>The filter of \<^verbatim>\<open>updateMany\<close> casts every member of \<^verbatim>\<open>$in\<close> to an
  \<^verbatim>\<open>ObjectId\<close>: a string qualifies when it is 24 hexadecimal digits.\<close>

definition isHex :: "char \<Rightarrow> bool" where
  "isHex c = (c \<in> set ''0123456789abcdefABCDEF'')"

definition isObjectId :: "string \<Rightarrow> bool" where
  "isObjectId s = (length s = 24 \<and> list_all isHex s)"

text \<open>\<^verbatim>\<open>markTicketsAsViewed\<close>. A member that is no \<^verbatim>\<open>ObjectId\<close> makes
  \<^verbatim>\<open>updateMany\<close> throw before anything is written, which the handler answers with 500;
  otherwise \<^verbatim>\<open>updateMany\<close> sets the flag, and stamps \<^verbatim>\<open>updatedAt\<close>, on the tickets it
  matches.\<close>

definition markTicketsAsViewed :: "int \<Rightarrow> idsArg \<Rightarrow> ticket list \<Rightarrow> (error + unit) \<times> ticket list" where
  "markTicketsAsViewed now ticketIds docs =
     (case ticketIds of
        IdArray ids \<Rightarrow>
          if ids = [] then (Inl BadRequest, docs)
          else if \<not> list_all isObjectId ids then (Inl ServerError, docs)
          else (Inr (), map (\<lambda>t. if oid t \<in> set ids
                                   then t\<lparr>viewedByAdmin := Some True, updatedAt := now\<rparr> else t) docs)
      | _ \<Rightarrow> (Inl BadRequest, docs))"

text \<open>The route \<^verbatim>\<open>POST /mark-viewed\<close>: \<^verbatim>\<open>adminOnly\<close>, then the handler.\<close>

definition markViewedRoute :: "int \<Rightarrow> actor \<Rightarrow> idsArg \<Rightarrow> ticket list \<Rightarrow> (error + unit) \<times> ticket list" where
  "markViewedRoute now a ticketIds docs = adminOnly a docs (markTicketsAsViewed now ticketIds docs)"

section \<open>Requests that validation accepts\<close>

text \<open>What \<^verbatim>\<open>createTicket\<close> and the schema ask of a body: the three fields truthy, the
  category in the enum, title and description not blank, the preferred visit a date.\<close>

definition acceptedTicketBody :: "dates \<Rightarrow> ticketBody \<Rightarrow> bool" where
  "acceptedTicketBody env body =
     ((case truthy (tb_category body) of None \<Rightarrow> False | Some cat \<Rightarrow> cat \<in> set ticketCategories)
      \<and> (case truthy (tb_title body) of None \<Rightarrow> False | Some ttl \<Rightarrow> trim ttl \<noteq> [])
      \<and> (case truthy (tb_description body) of None \<Rightarrow> False | Some descr \<Rightarrow> trim descr \<noteq> [])
      \<and> (case truthy (tb_preferredVisitAt body) of None \<Rightarrow> True | Some v \<Rightarrow> castDate env v \<noteq> None))"

definition acceptedServiceRequestBody :: "dates \<Rightarrow> serviceRequestBody \<Rightarrow> bool" where
  "acceptedServiceRequestBody env body =
     ((case truthy (sb_category body) of None \<Rightarrow> False | Some cat \<Rightarrow> cat \<in> set serviceRequestCategories)
      \<and> (case truthy (sb_title body) of None \<Rightarrow> False | Some ttl \<Rightarrow> trim ttl \<noteq> [])
      \<and> (case truthy (sb_description body) of None \<Rightarrow> False | Some descr \<Rightarrow> trim descr \<noteq> [])
      \<and> (case truthy (sb_address body) of None \<Rightarrow> False | Some addr \<Rightarrow> trim addr \<noteq> [])
      \<and> (case truthy (sb_outletName body) of None \<Rightarrow> False | Some outlet \<Rightarrow> trim outlet \<noteq> [])
      \<and> (case sb_location body of Some (Some lat, Some lng) \<Rightarrow> True | _ \<Rightarrow> False)
      \<and> (case truthy (sb_preferredVisitAt body) of None \<Rightarrow> True | Some v \<Rightarrow> castDate env v \<noteq> None))"

text \<open>The acting user is stored, with both coordinates of the location.\<close>

definition hasLocation :: "user list \<Rightarrow> actor \<Rightarrow> bool" where
  "hasLocation users a =
     (case findUser (uid a) users of
        None \<Rightarrow> False
      | Some u \<Rightarrow> (case userLocation u of Some (Some lat, Some lng) \<Rightarrow> True | _ \<Rightarrow> False))"

text \<open>The acting user is stored (\<^verbatim>\<open>createServiceRequest\<close> answers 404 otherwise).\<close>

definition hasUser :: "user list \<Rightarrow> actor \<Rightarrow> bool" where
  "hasUser users a = (findUser (uid a) users \<noteq> None)"

section \<open>Sample data\<close>

definition sampleDates :: dates where
  "sampleDates =
     \<lparr>newDate = (\<lambda>s. if s = ''2025-01-01T00:00:00.000Z'' then Some 1735689600000 else None),
      castDate = (\<lambda>s. if s = ''2025-01-01T00:00:00.000Z'' then Some 1735689600000 else None)\<rparr>"

definition aliceId :: string where "aliceId = ''64b7f0c2a1d3e4f5a6b7c8d9''"
definition bobId :: string where "bobId = ''64b7f0c2a1d3e4f5a6b7c8da''"

definition sampleUsers :: "user list" where
  "sampleUsers =
     [\<lparr>userOid = aliceId, userLocation = Some (Some 13, Some 77)\<rparr>,
      \<lparr>userOid = bobId, userLocation = Some (Some 19, Some 72)\<rparr>]"

definition alice :: actor where
  "alice = \<lparr>uid = aliceId, role = ''user'', name = ''Alice''\<rparr>"

definition bob :: actor where
  "bob = \<lparr>uid = bobId, role = ''user'', name = ''Bob''\<rparr>"

definition sampleAdmin :: actor where
  "sampleAdmin = \<lparr>uid = ''admin-session-726f6f74'', role = ''admin'', name = ''Admin root''\<rparr>"

definition sampleTicketBody :: ticketBody where
  "sampleTicketBody =
     \<lparr>tb_category = Some ''CCTV'', tb_title = Some ''Camera offline'',
      tb_description = Some ''No signal'', tb_preferredVisitAt = None, tb_files = None\<rparr>"

definition sampleEntry :: timelineEntry where
  "sampleEntry =
     \<lparr>noteText = ''Technician assigned'', entryImages = [], addedBy = ''Admin root'',
      addedAt = 1500, seenBy = []\<rparr>"

definition sampleTicket :: ticket where
  "sampleTicket =
     \<lparr>oid = ''650000000000000000000001'', userId = aliceId, category = ''CCTV'',
      title = ''Camera offline'', description = ''No signal'', images = [], status = ''New'',
      preferredVisitAt = None, assignedVisitAt = None, timeline = [sampleEntry],
      location = (13, 77), createdAt = 1000, updatedAt = 1500,
      ticketId = ''TKT-000001'', viewedByAdmin = Some False\<rparr>"

definition samplePricedEntry :: pricedEntry where
  "samplePricedEntry =
     \<lparr>noteText = ''Quote attached'', entryImages = [], addedBy = ''Admin root'',
      addedAt = 1500, seenBy = [], priceList = [(1, ''Cable'', 250)], totalPrice = 250\<rparr>"

definition sampleRequest :: serviceRequest where
  "sampleRequest =
     \<lparr>oid = ''660000000000000000000001'', userId = aliceId, category = ''CCTV'',
      title = ''Install camera'', description = ''Two cameras'', images = [], status = ''New'',
      preferredVisitAt = None, assignedVisitAt = None, timeline = [samplePricedEntry],
      location = (13, 77), createdAt = 1000, updatedAt = 1500,
      requestId = ''SRV-000001'', completedAt = None, address = ''12 Main Road'',
      outletName = ''Central''\<rparr>"

definition sampleRequestBody :: serviceRequestBody where
  "sampleRequestBody =
     \<lparr>sb_category = Some ''CCTV'', sb_title = Some ''Install camera'',
      sb_description = Some ''Two cameras'', sb_preferredVisitAt = Some ''2025-01-01T00:00:00.000Z'',
      sb_address = Some ''12 Main Road'', sb_outletName = Some ''Central'',
      sb_location = Some (Some 13, Some 77), sb_files = None\<rparr>"

definition scheduledTicket :: ticket where
  "scheduledTicket = sampleTicket\<lparr>assignedVisitAt := Some 1735689600000\<rparr>"

definition scheduledRequest :: serviceRequest where
  "scheduledRequest = sampleRequest\<lparr>assignedVisitAt := Some 1735689600000\<rparr>"

definition secondTicket :: ticket where
  "secondTicket =
     sampleTicket\<lparr>oid := ''650000000000000000000002'', createdAt := 2000, updatedAt := 2000,
                  ticketId := ''TKT-000002'', timeline := []\<rparr>"

definition bobsTicket :: ticket where
  "bobsTicket =
     sampleTicket\<lparr>oid := ''650000000000000000000003'', userId := bobId, createdAt := 3000,
                  updatedAt := 3000, ticketId := ''TKT-000003'', timeline := []\<rparr>"

definition secondRequest :: serviceRequest where
  "secondRequest =
     sampleRequest\<lparr>oid := ''660000000000000000000002'', createdAt := 2000, updatedAt := 2000,
                   requestId := ''SRV-000002'', timeline := []\<rparr>"

definition completedRequest :: serviceRequest where
  "completedRequest = sampleRequest\<lparr>status := ''Completed'', completedAt := Some 4000\<rparr>"

section \<open>Decimal digits and safe integers\<close>

lemma replicate_numeral_Cons: "replicate (numeral k) c = c # replicate (pred_numeral k) c"
  by (simp add: numeral_eq_Suc)

lemma decimalValue_snoc: "decimalValue (ds @ [c]) = 10 * decimalValue ds + digitVal c"
  by (simp add: decimalValue_def)

lemma digit_cases: "n < 10 \<Longrightarrow> n \<in> {0, 1, 2, 3, 4, 5, 6, 7, 8, 9::nat}"
  by auto

lemma digitVal_digitChar: "n < 10 \<Longrightarrow> digitVal (digitChar n) = n"
  using digit_cases [of n] by (auto simp: digitVal_def digitChar_def)

lemma isDigit_digitChar: "n < 10 \<Longrightarrow> isDigit (digitChar n)"
  using digit_cases [of n] by (auto simp: isDigit_def digitChar_def)

lemma decimalValue_showNat: "decimalValue (showNat n) = n"
proof (induction n rule: showNat.induct)
  case (1 n)
  show ?case
  proof (cases "n < 10")
    case True
    then show ?thesis
      by (simp add: showNat.simps [of n] decimalValue_def digitVal_digitChar)
  next
    case False
    with 1 have "decimalValue (showNat (n div 10)) = n div 10" by simp
    with False show ?thesis
      by (simp add: showNat.simps [of n] decimalValue_snoc digitVal_digitChar)
  qed
qed

lemma showNat_digits: "list_all isDigit (showNat n)"
proof (induction n rule: showNat.induct)
  case (1 n)
  show ?case
  proof (cases "n < 10")
    case True
    then show ?thesis by (simp add: showNat.simps [of n] isDigit_digitChar)
  next
    case False
    with 1 show ?thesis by (simp add: showNat.simps [of n] isDigit_digitChar)
  qed
qed

lemma showNat_nonempty: "showNat n \<noteq> []"
  by (subst showNat.simps) simp

lemma decimalValue_zeros: "decimalValue (replicate k CHR ''0'' @ ds) = decimalValue ds"
  by (induction k) (simp_all add: decimalValue_def digitVal_def)

lemma zeros_digits: "list_all isDigit (replicate k CHR ''0'')"
  by (induction k) (simp_all add: isDigit_def)

lemma padStart_digits: "list_all isDigit (padStart 6 CHR ''0'' (showNat n))"
  by (simp add: padStart_def showNat_digits zeros_digits)

lemma filter_all: "list_all P xs \<Longrightarrow> filter P xs = xs"
  by (simp add: list_all_iff)

lemma decimalValue_padStart: "decimalValue (padStart 6 CHR ''0'' (showNat n)) = n"
  by (simp add: padStart_def decimalValue_zeros decimalValue_showNat)

lemma bitlen_54: "bitlen (2 ^ 53) = 54"
  by (simp add: bitlen.simps)

lemma roundDouble_safe: "n \<le> 2 ^ 53 \<Longrightarrow> roundDouble n = n"
proof (cases "n < 2 ^ 53")
  case True
  then show ?thesis by (simp add: roundDouble_def)
next
  case False
  assume "n \<le> 2 ^ 53"
  with False have n: "n = 2 ^ 53" by simp
  show ?thesis unfolding n roundDouble_def bitlen_54 by (simp add: Let_def)
qed

lemma toDouble_safe: "n \<le> 2 ^ 53 \<Longrightarrow> toDouble n = Num n"
proof -
  assume a: "n \<le> 2 ^ 53"
  have "(2::nat) ^ 53 < 2 ^ 1024" by simp
  with a have "n < 2 ^ 1024" by (rule le_less_trans)
  with a show ?thesis by (simp add: toDouble_def roundDouble_safe)
qed






lemma showNat_1: "showNat (Suc 0) = ''1''"
  by (simp add: showNat.simps digitChar_def)

lemma nextHumanId_one: "nextSeq prev = Num 1 \<Longrightarrow> nextHumanId pfx prev = pfx @ ''000001''"
  by (simp add: nextHumanId_def showNat_1 padStart_def replicate_numeral_Cons)


lemma nextSeq_None: "nextSeq None = Num 1"
  by (simp add: nextSeq_def lastSeq_def toDouble_safe)


lemma nextSeq_safe:
  assumes "filter isDigit hid \<noteq> []" and "decimalValue (filter isDigit hid) + 1 \<le> 2 ^ 53"
  shows "nextSeq (Some hid) = Num (decimalValue (filter isDigit hid) + 1)"
proof -
  from assms(1) have ne: "hid \<noteq> []" by auto
  from assms(2) have "decimalValue (filter isDigit hid) \<le> 2 ^ 53" by simp
  then have "lastSeq (Some hid) = Num (decimalValue (filter isDigit hid))"
    using assms(1) ne by (simp add: lastSeq_def parseInt10_def toDouble_safe)
  with assms(2) show ?thesis by (simp add: nextSeq_def toDouble_safe)
qed

lemma nextHumanId_decimal:
  "nextSeq prev = Num m \<Longrightarrow> m \<le> 2 ^ 53 \<Longrightarrow> nextHumanId pfx prev = pfx @ padStart 6 CHR ''0'' (showNat m)"
  by (simp add: nextHumanId_def)

lemma nextHumanId_increment:
  assumes "filter isDigit pfx = []" and "n + 1 \<le> 2 ^ 53"
  shows "nextHumanId pfx (Some (pfx @ padStart 6 CHR ''0'' (showNat n))) = pfx @ padStart 6 CHR ''0'' (showNat (n + 1))"
proof -
  let ?hid = "pfx @ padStart 6 CHR ''0'' (showNat n)"
  have f: "filter isDigit ?hid = padStart 6 CHR ''0'' (showNat n)"
    using assms(1) by (simp add: filter_all padStart_digits)
  have ne: "filter isDigit ?hid \<noteq> []" unfolding f by (simp add: padStart_def showNat_nonempty)
  have v: "decimalValue (filter isDigit ?hid) = n" unfolding f by (rule decimalValue_padStart)
  have "nextSeq (Some ?hid) = Num (n + 1)"
    using nextSeq_safe [OF ne] assms(2) v by simp
  then show ?thesis using assms(2) by (rule nextHumanId_decimal)
qed

lemmas alloc_eval = nextHumanId_def nextSeq_def lastSeq_def parseInt10_def isDigit_def
  decimalValue_def digitVal_def toDouble_def roundDouble_def Let_def padStart_def digitChar_def
  replicate_numeral_Cons

section \<open>Creation succeeds on accepted requests\<close>

lemma createTicketAt_accepted:
  assumes acc: "acceptedTicketBody env body" and loc: "hasLocation users a"
    and fresh: "\<forall>d \<in> set docs. ticketId d \<noteq> nextHumanId ''TKT-'' (map_option ticketId (lastCreated seen)) \<and> oid d \<noteq> newOid"
  shows "\<exists>t. createTicketAt env now newOid users a body seen docs = (Inr t, docs @ [t])
           \<and> ticketId t = nextHumanId ''TKT-'' (map_option ticketId (lastCreated seen))
           \<and> oid t = newOid \<and> userId t = uid a \<and> createdAt t = now"
proof -
  from acc obtain cat ttl descr where
    c: "truthy (tb_category body) = Some cat" "cat \<in> set ticketCategories" and
    t: "truthy (tb_title body) = Some ttl" "trim ttl \<noteq> []" and
    d: "truthy (tb_description body) = Some descr" "trim descr \<noteq> []" and
    v: "case truthy (tb_preferredVisitAt body) of None \<Rightarrow> True | Some v \<Rightarrow> castDate env v \<noteq> None"
    by (auto simp: acceptedTicketBody_def split: option.splits)
  from loc obtain u lat lng where
    u: "findUser (uid a) users = Some u" "userLocation u = Some (Some lat, Some lng)"
    by (auto simp: hasLocation_def split: option.splits prod.splits)
  from v have v': "map_option (castDate env) (truthy (tb_preferredVisitAt body)) \<noteq> Some None"
    by (auto split: option.splits)
  show ?thesis
    using c t d u v' fresh
    by (simp add: createTicketAt_def Let_def preValidate_ticket_def insertTicket_def)
qed

lemma lastCreated_Nil: "lastCreated [] = None"
  by (simp add: lastCreated_def sortNewest_def)

lemma lastCreated_single: "lastCreated [d] = Some d"
  by (simp add: lastCreated_def sortNewest_def)

lemma next_after_first: "nextHumanId ''TKT-'' (Some ''TKT-000001'') = ''TKT-000002''"
  by (simp add: alloc_eval showNat.simps)

lemma filter_TKT: "filter isDigit ''TKT-'' = []"
  by (simp add: isDigit_def)

lemma sample_accepted: "acceptedTicketBody sampleDates sampleTicketBody"
  by (simp add: acceptedTicketBody_def sampleTicketBody_def truthy_def ticketCategories_def trim_def
      stripLeading.simps whiteSpace_def startsWith_def)

lemma alice_located: "hasLocation sampleUsers alice"
  by (simp add: hasLocation_def findUser_def sampleUsers_def alice_def aliceId_def bobId_def)

lemma bob_located: "hasLocation sampleUsers bob"
  by (simp add: hasLocation_def findUser_def sampleUsers_def bob_def aliceId_def bobId_def)

section \<open>Printed digits and the newest document\<close>





lemma lastCreated_newest:
  assumes mem: "d \<in> set docs" and newest: "\<forall>d' \<in> set docs. d' \<noteq> d \<longrightarrow> createdAt d' < createdAt d"
  shows "lastCreated docs = Some d"
proof -
  let ?f = "\<lambda>d. - createdAt d"
  from mem have "set (sort_key ?f docs) \<noteq> {}" by auto
  then obtain y ys where ys: "sort_key ?f docs = y # ys" by (cases "sort_key ?f docs") auto
  have srt: "sorted (map ?f (y # ys))" unfolding ys [symmetric] by (rule sorted_sort_key)
  have st: "set (y # ys) = set docs" unfolding ys [symmetric] by simp
  have "y = d"
  proof (rule ccontr)
    assume ne: "y \<noteq> d"
    from st have "y \<in> set docs" by auto
    with newest ne have lt: "createdAt y < createdAt d" by blast
    from st mem ne have "d \<in> set ys" by auto
    with srt have "?f y \<le> ?f d" by auto
    with lt show False by simp
  qed
  with ys show ?thesis by (simp add: lastCreated_def sortNewest_def)
qed








section \<open>Claims about the sequence allocator\<close>

lemma createTicket_after_newest:
  assumes acc: "acceptedTicketBody env body" and loc: "hasLocation users a"
    and mem: "d \<in> set docs" and newest: "\<forall>d' \<in> set docs. d' \<noteq> d \<longrightarrow> createdAt d' < createdAt d"
    and hid: "ticketId d = ''TKT-'' @ padStart 6 CHR ''0'' (showNat n)" and safe: "n + 1 \<le> 2 ^ 53"
    and fresh: "\<forall>d' \<in> set docs. ticketId d' \<noteq> ''TKT-'' @ padStart 6 CHR ''0'' (showNat (n + 1)) \<and> oid d' \<noteq> newOid"
  shows "\<exists>t. createTicket env now newOid users a body docs = (Inr t, docs @ [t])
           \<and> ticketId t = ''TKT-'' @ padStart 6 CHR ''0'' (showNat (n + 1))"
proof -
  have last: "lastCreated docs = Some d" using mem newest by (rule lastCreated_newest)
  have nxt: "nextHumanId ''TKT-'' (map_option ticketId (lastCreated docs))
               = ''TKT-'' @ padStart 6 CHR ''0'' (showNat (n + 1))"
    unfolding last option.map hid using filter_TKT safe by (rule nextHumanId_increment)
  have "\<forall>d' \<in> set docs. ticketId d' \<noteq> nextHumanId ''TKT-'' (map_option ticketId (lastCreated docs)) \<and> oid d' \<noteq> newOid"
    unfolding nxt by (rule fresh)
  from createTicketAt_accepted [OF acc loc this, of now]
  show ?thesis unfolding createTicket_def nxt by blast
qed

lemma padded_3: "padStart 6 CHR ''0'' (showNat 3) = ''000003''"
  by (simp add: padStart_def showNat.simps digitChar_def replicate_numeral_Cons)

lemma padded_4: "padStart 6 CHR ''0'' (showNat (3 + 1)) = ''000004''"
  by (simp add: padStart_def showNat.simps digitChar_def replicate_numeral_Cons)

text \<open>
  Claim C6. Starting from a collection with no tickets, two creations one after the other
  (accepted bodies, located users, distinct generated \<^verbatim>\<open>_id\<close>s) succeed and give the
  tickets the identifiers \<^verbatim>\<open>TKT-000001\<close> and \<^verbatim>\<open>TKT-000002\<close>. With no prior record the
  allocator starts at 1; from a stored identifier \<^verbatim>\<open>TKT-\<close> plus the six-digit padded
  \<open>n\<close> it gives \<^verbatim>\<open>TKT-\<close> plus the padded \<open>n + 1\<close> (for every \<open>n\<close> that JavaScript
  increments exactly). The identifier a creation parses is that of the most recently created
  ticket: in any collection whose newest ticket (by \<^verbatim>\<open>createdAt\<close>, wherever it is stored)
  carries the padded \<open>n\<close>, a creation whose result is not yet stored gives the new ticket the
  padded \<open>n + 1\<close>.
\<close>

theorem two_tickets_from_empty:
  assumes "acceptedTicketBody env b1" and "hasLocation users a1"
    and "acceptedTicketBody env b2" and "hasLocation users a2" and "o1 \<noteq> o2"
  shows "(\<exists>t1 t2. createTicket env n1 o1 users a1 b1 [] = (Inr t1, [t1])
            \<and> createTicket env n2 o2 users a2 b2 [t1] = (Inr t2, [t1, t2])
            \<and> ticketId t1 = ''TKT-000001'' \<and> ticketId t2 = ''TKT-000002'')
         \<and> nextHumanId ''TKT-'' None = ''TKT-000001''
         \<and> (\<forall>n. n + 1 \<le> 2 ^ 53 \<longrightarrow>
               nextHumanId ''TKT-'' (Some (''TKT-'' @ padStart 6 CHR ''0'' (showNat n)))
                 = ''TKT-'' @ padStart 6 CHR ''0'' (showNat (n + 1)))
         \<and> (\<forall>docs d n newOid now.
               d \<in> set docs \<and> (\<forall>d' \<in> set docs. d' \<noteq> d \<longrightarrow> createdAt d' < createdAt d)
               \<and> ticketId d = ''TKT-'' @ padStart 6 CHR ''0'' (showNat n) \<and> n + 1 \<le> 2 ^ 53
               \<and> (\<forall>d' \<in> set docs. ticketId d' \<noteq> ''TKT-'' @ padStart 6 CHR ''0'' (showNat (n + 1))
                                     \<and> oid d' \<noteq> newOid)
               \<longrightarrow> (\<exists>t. createTicket env now newOid users a1 b1 docs = (Inr t, docs @ [t])
                      \<and> ticketId t = ''TKT-'' @ padStart 6 CHR ''0'' (showNat (n + 1))))"
proof -
  have first: "nextHumanId ''TKT-'' None = ''TKT-000001''"
    using nextHumanId_one [OF nextSeq_None, of "''TKT-''"] by simp
  from createTicketAt_accepted [OF assms(1,2), of "[]" "[]" o1 n1]
  obtain t1 where t1: "createTicket env n1 o1 users a1 b1 [] = (Inr t1, [t1])"
    "ticketId t1 = ''TKT-000001''" "oid t1 = o1"
    by (auto simp: createTicket_def lastCreated_Nil first)
  have "\<forall>d \<in> set [t1]. ticketId d \<noteq> nextHumanId ''TKT-'' (map_option ticketId (lastCreated [t1])) \<and> oid d \<noteq> o2"
    using t1 assms(5) by (simp add: lastCreated_single next_after_first)
  from createTicketAt_accepted [OF assms(3,4) this, of n2]
  obtain t2 where t2: "createTicket env n2 o2 users a2 b2 [t1] = (Inr t2, [t1, t2])"
    "ticketId t2 = ''TKT-000002''"
    using t1 by (auto simp: createTicket_def lastCreated_single next_after_first)
  have inc: "\<forall>n. n + 1 \<le> 2 ^ 53 \<longrightarrow>
               nextHumanId ''TKT-'' (Some (''TKT-'' @ padStart 6 CHR ''0'' (showNat n)))
                 = ''TKT-'' @ padStart 6 CHR ''0'' (showNat (n + 1))"
    using nextHumanId_increment [OF filter_TKT] by blast
  have gen: "\<forall>docs d n newOid now.
               d \<in> set docs \<and> (\<forall>d' \<in> set docs. d' \<noteq> d \<longrightarrow> createdAt d' < createdAt d)
               \<and> ticketId d = ''TKT-'' @ padStart 6 CHR ''0'' (showNat n) \<and> n + 1 \<le> 2 ^ 53
               \<and> (\<forall>d' \<in> set docs. ticketId d' \<noteq> ''TKT-'' @ padStart 6 CHR ''0'' (showNat (n + 1))
                                     \<and> oid d' \<noteq> newOid)
               \<longrightarrow> (\<exists>t. createTicket env now newOid users a1 b1 docs = (Inr t, docs @ [t])
                      \<and> ticketId t = ''TKT-'' @ padStart 6 CHR ''0'' (showNat (n + 1)))"
    using createTicket_after_newest [OF assms(1,2)] by blast
  from t1 t2 have ex: "\<exists>t1 t2. createTicket env n1 o1 users a1 b1 [] = (Inr t1, [t1])
            \<and> createTicket env n2 o2 users a2 b2 [t1] = (Inr t2, [t1, t2])
            \<and> ticketId t1 = ''TKT-000001'' \<and> ticketId t2 = ''TKT-000002''" by blast
  show ?thesis by (intro conjI ex first inc gen)
qed

theorem two_tickets_from_empty_witness:
  "acceptedTicketBody sampleDates sampleTicketBody \<and> hasLocation sampleUsers alice
   \<and> hasLocation sampleUsers bob \<and> ''650000000000000000000001'' \<noteq> ''650000000000000000000002''
   \<and> (\<exists>t1 t2. createTicket sampleDates 1000 ''650000000000000000000001'' sampleUsers alice sampleTicketBody [] = (Inr t1, [t1])
            \<and> createTicket sampleDates 2000 ''650000000000000000000002'' sampleUsers bob sampleTicketBody [t1] = (Inr t2, [t1, t2])
            \<and> ticketId t1 = ''TKT-000001'' \<and> ticketId t2 = ''TKT-000002'')
   \<and> (7 + 1 \<le> (2::nat) ^ 53 \<and> nextHumanId ''TKT-'' (Some (''TKT-'' @ padStart 6 CHR ''0'' (showNat 7)))
                 = ''TKT-'' @ padStart 6 CHR ''0'' (showNat (7 + 1)))
   \<and> bobsTicket \<in> set [secondTicket, bobsTicket, sampleTicket]
   \<and> createdAt secondTicket < createdAt bobsTicket \<and> createdAt sampleTicket < createdAt bobsTicket
   \<and> ticketId bobsTicket = ''TKT-'' @ padStart 6 CHR ''0'' (showNat 3) \<and> 3 + 1 \<le> (2::nat) ^ 53
   \<and> ''TKT-'' @ padStart 6 CHR ''0'' (showNat (3 + 1))
         \<notin> set (map ticketId [secondTicket, bobsTicket, sampleTicket])
   \<and> ''650000000000000000000004'' \<notin> set (map oid [secondTicket, bobsTicket, sampleTicket])
   \<and> (\<exists>t. createTicket sampleDates 4000 ''650000000000000000000004'' sampleUsers alice sampleTicketBody
              [secondTicket, bobsTicket, sampleTicket] = (Inr t, [secondTicket, bobsTicket, sampleTicket] @ [t])
          \<and> ticketId t = ''TKT-000004'')"
proof -
  let ?docs = "[secondTicket, bobsTicket, sampleTicket]"
  have ne: "''650000000000000000000001'' \<noteq> ''650000000000000000000002''" by simp
  have le: "7 + 1 \<le> (2::nat) ^ 53" by simp
  have le3: "3 + 1 \<le> (2::nat) ^ 53" by simp
  have mem: "bobsTicket \<in> set ?docs" by simp
  have newest: "\<forall>d' \<in> set ?docs. d' \<noteq> bobsTicket \<longrightarrow> createdAt d' < createdAt bobsTicket"
    by (simp add: secondTicket_def bobsTicket_def sampleTicket_def)
  have hid: "ticketId bobsTicket = ''TKT-'' @ padStart 6 CHR ''0'' (showNat 3)"
    by (simp add: padded_3) (simp add: bobsTicket_def)
  have fresh: "\<forall>d' \<in> set ?docs.
          ticketId d' \<noteq> ''TKT-'' @ padStart 6 CHR ''0'' (showNat (3 + 1)) \<and> oid d' \<noteq> ''650000000000000000000004''"
    by (simp only: padded_4) (simp add: secondTicket_def bobsTicket_def sampleTicket_def)
  note T = two_tickets_from_empty [OF sample_accepted alice_located sample_accepted bob_located ne, of 1000 2000]
  from T have A: "\<exists>t1 t2. createTicket sampleDates 1000 ''650000000000000000000001'' sampleUsers alice sampleTicketBody [] = (Inr t1, [t1])
            \<and> createTicket sampleDates 2000 ''650000000000000000000002'' sampleUsers bob sampleTicketBody [t1] = (Inr t2, [t1, t2])
            \<and> ticketId t1 = ''TKT-000001'' \<and> ticketId t2 = ''TKT-000002''" by (rule conjunct1)
  from T le have B: "7 + 1 \<le> (2::nat) ^ 53 \<and> nextHumanId ''TKT-'' (Some (''TKT-'' @ padStart 6 CHR ''0'' (showNat 7)))
                 = ''TKT-'' @ padStart 6 CHR ''0'' (showNat (7 + 1))" by blast
  from T [THEN conjunct2, THEN conjunct2, THEN conjunct2, rule_format, of bobsTicket ?docs 3
      "''650000000000000000000004''" 4000] mem newest hid le3 fresh
  have "\<exists>t. createTicket sampleDates 4000 ''650000000000000000000004'' sampleUsers alice sampleTicketBody
              ?docs = (Inr t, ?docs @ [t])
          \<and> ticketId t = ''TKT-'' @ padStart 6 CHR ''0'' (showNat (3 + 1))" by blast
  then have C: "\<exists>t. createTicket sampleDates 4000 ''650000000000000000000004'' sampleUsers alice sampleTicketBody
              ?docs = (Inr t, ?docs @ [t]) \<and> ticketId t = ''TKT-000004''"
    by (simp only: padded_4) simp
  have age: "createdAt secondTicket < createdAt bobsTicket" "createdAt sampleTicket < createdAt bobsTicket"
    by (simp_all add: secondTicket_def bobsTicket_def sampleTicket_def)
  have unused: "''TKT-'' @ padStart 6 CHR ''0'' (showNat (3 + 1)) \<notin> set (map ticketId ?docs)"
    by (simp only: padded_4) (simp add: secondTicket_def bobsTicket_def sampleTicket_def)
  have newId: "''650000000000000000000004'' \<notin> set (map oid ?docs)"
    by (simp add: secondTicket_def bobsTicket_def sampleTicket_def)
  show ?thesis
    by (intro conjI sample_accepted alice_located bob_located ne A B mem age hid le3 unused newId C)
qed













section \<open>Colliding identifiers\<close>

lemma createTicketAt_cases:
  "createTicketAt env now newOid users a body seen docs = (res, docs') \<Longrightarrow>
     (isl res \<and> docs' = docs)
     \<or> (\<exists>t. res = Inr t \<and> docs' = docs @ [t]
           \<and> ticketId t = nextHumanId ''TKT-'' (map_option ticketId (lastCreated seen))
           \<and> (\<forall>d \<in> set docs. ticketId d \<noteq> ticketId t))"
  by (auto simp: createTicketAt_def Let_def insertTicket_def preValidate_ticket_def
      split: option.splits prod.splits if_splits)

lemma createServiceRequestAt_cases:
  "createServiceRequestAt env now newOid users a body seen docs = (res, docs') \<Longrightarrow>
     (isl res \<and> docs' = docs)
     \<or> (\<exists>r. res = Inr r \<and> docs' = docs @ [r]
           \<and> requestId r = nextHumanId ''SRV-'' (map_option requestId (lastCreated seen))
           \<and> (\<forall>d \<in> set docs. requestId d \<noteq> requestId r))"
  by (auto simp: createServiceRequestAt_def Let_def insertServiceRequest_def preValidate_serviceRequest_def
      split: option.splits prod.splits if_splits)


lemma createTicketAt_collision:
  assumes acc: "acceptedTicketBody env body" and loc: "hasLocation users a"
    and hit: "nextHumanId ''TKT-'' (map_option ticketId (lastCreated seen)) \<in> ticketId ` set docs"
  shows "createTicketAt env now newOid users a body seen docs = (Inl ServerError, docs)"
proof -
  from acc obtain cat ttl descr where
    c: "truthy (tb_category body) = Some cat" "cat \<in> set ticketCategories" and
    t: "truthy (tb_title body) = Some ttl" "trim ttl \<noteq> []" and
    d: "truthy (tb_description body) = Some descr" "trim descr \<noteq> []"
    by (auto simp: acceptedTicketBody_def split: option.splits)
  from loc obtain u lat lng where
    u: "findUser (uid a) users = Some u" "userLocation u = Some (Some lat, Some lng)"
    by (auto simp: hasLocation_def split: option.splits prod.splits)
  from hit obtain d0 where "d0 \<in> set docs"
    "ticketId d0 = nextHumanId ''TKT-'' (map_option ticketId (lastCreated seen))" by auto
  then have ex: "\<exists>d \<in> set docs. ticketId d = nextHumanId ''TKT-'' (map_option ticketId (lastCreated seen)) \<or> oid d = newOid"
    by blast
  show ?thesis
    using c t d u ex
    by (simp add: createTicketAt_def Let_def preValidate_ticket_def insertTicket_def)
qed

lemma createTicketAt_distinct:
  assumes "distinct (map ticketId docs)"
  shows "distinct (map ticketId (snd (createTicketAt env now newOid users a body seen docs)))"
proof -
  obtain res docs' where r: "createTicketAt env now newOid users a body seen docs = (res, docs')"
    by (cases "createTicketAt env now newOid users a body seen docs")
  from createTicketAt_cases [OF r] show ?thesis
  proof
    assume "isl res \<and> docs' = docs"
    with assms r show ?thesis by simp
  next
    assume "\<exists>t. res = Inr t \<and> docs' = docs @ [t]
           \<and> ticketId t = nextHumanId ''TKT-'' (map_option ticketId (lastCreated seen))
           \<and> (\<forall>d \<in> set docs. ticketId d \<noteq> ticketId t)"
    then obtain t where "docs' = docs @ [t]" "\<forall>d \<in> set docs. ticketId d \<noteq> ticketId t" by blast
    then have "docs' = docs @ [t]" "ticketId t \<notin> ticketId ` set docs" by auto
    with assms r show ?thesis by simp
  qed
qed

lemma createServiceRequestAt_collision:
  assumes acc: "acceptedServiceRequestBody env body" and usr: "hasUser users a"
    and hit: "nextHumanId ''SRV-'' (map_option requestId (lastCreated seen)) \<in> requestId ` set docs"
  shows "createServiceRequestAt env now newOid users a body seen docs = (Inl ServerError, docs)"
proof -
  from acc obtain cat ttl descr addr outlet lat lng where
    c: "truthy (sb_category body) = Some cat" "cat \<in> set serviceRequestCategories" and
    t: "truthy (sb_title body) = Some ttl" "trim ttl \<noteq> []" and
    d: "truthy (sb_description body) = Some descr" "trim descr \<noteq> []" and
    ad: "truthy (sb_address body) = Some addr" "trim addr \<noteq> []" and
    ou: "truthy (sb_outletName body) = Some outlet" "trim outlet \<noteq> []" and
    l: "sb_location body = Some (Some lat, Some lng)"
    by (auto simp: acceptedServiceRequestBody_def split: option.splits prod.splits)
  from usr obtain u where u: "findUser (uid a) users = Some u"
    by (auto simp: hasUser_def)
  from hit obtain d0 where "d0 \<in> set docs"
    "requestId d0 = nextHumanId ''SRV-'' (map_option requestId (lastCreated seen))" by auto
  then have ex: "\<exists>d \<in> set docs. requestId d = nextHumanId ''SRV-'' (map_option requestId (lastCreated seen)) \<or> oid d = newOid"
    by blast
  show ?thesis
    using c t d ad ou l u ex
    by (simp add: createServiceRequestAt_def Let_def preValidate_serviceRequest_def insertServiceRequest_def)
qed

lemma createServiceRequestAt_distinct:
  assumes "distinct (map requestId docs)"
  shows "distinct (map requestId (snd (createServiceRequestAt env now newOid users a body seen docs)))"
proof -
  obtain res docs' where r: "createServiceRequestAt env now newOid users a body seen docs = (res, docs')"
    by (cases "createServiceRequestAt env now newOid users a body seen docs")
  from createServiceRequestAt_cases [OF r] show ?thesis
  proof
    assume "isl res \<and> docs' = docs"
    with assms r show ?thesis by simp
  next
    assume "\<exists>t. res = Inr t \<and> docs' = docs @ [t]
           \<and> requestId t = nextHumanId ''SRV-'' (map_option requestId (lastCreated seen))
           \<and> (\<forall>d \<in> set docs. requestId d \<noteq> requestId t)"
    then obtain t where "docs' = docs @ [t]" "\<forall>d \<in> set docs. requestId d \<noteq> requestId t" by blast
    then have "docs' = docs @ [t]" "requestId t \<notin> requestId ` set docs" by auto
    with assms r show ?thesis by simp
  qed
qed

lemma sampleRequestBody_accepted: "acceptedServiceRequestBody sampleDates sampleRequestBody"
  by (simp add: acceptedServiceRequestBody_def sampleRequestBody_def truthy_def
      serviceRequestCategories_def trim_def stripLeading.simps whiteSpace_def startsWith_def
      sampleDates_def)

lemma bob_stored: "hasUser sampleUsers bob"
  by (simp add: hasUser_def findUser_def sampleUsers_def bob_def aliceId_def bobId_def)

lemma first_TKT: "nextHumanId ''TKT-'' None = ''TKT-000001''"
  using nextHumanId_one [OF nextSeq_None, of "''TKT-''"] by simp

lemma first_SRV: "nextHumanId ''SRV-'' None = ''SRV-000001''"
  using nextHumanId_one [OF nextSeq_None, of "''SRV-''"] by simp

text \<open>
  Claim C4, as amended. When the identifier the hook computes is already stored (the hook
  read the collection \<open>seen\<close>, the insert lands in \<open>docs\<close>), the unique index rejects the
  insert: creation fails and the collection is unchanged, with a server error (500) when the
  request was otherwise acceptable. Nothing is retried. A creation never puts a second
  document with a stored identifier into the collection. This holds for tickets and for
  service requests.
\<close>

theorem collision_fails_without_retry:
  "(nextHumanId ''TKT-'' (map_option ticketId (lastCreated seen)) \<in> ticketId ` set docs \<longrightarrow>
      isl (fst (createTicketAt env now newOid users a body seen docs))
      \<and> snd (createTicketAt env now newOid users a body seen docs) = docs)
   \<and> (acceptedTicketBody env body \<and> hasLocation users a
       \<and> nextHumanId ''TKT-'' (map_option ticketId (lastCreated seen)) \<in> ticketId ` set docs \<longrightarrow>
      createTicketAt env now newOid users a body seen docs = (Inl ServerError, docs))
   \<and> (distinct (map ticketId docs) \<longrightarrow>
      distinct (map ticketId (snd (createTicketAt env now newOid users a body seen docs))))
   \<and> (nextHumanId ''SRV-'' (map_option requestId (lastCreated sseen)) \<in> requestId ` set sdocs \<longrightarrow>
      isl (fst (createServiceRequestAt env now newOid users a sbody sseen sdocs))
      \<and> snd (createServiceRequestAt env now newOid users a sbody sseen sdocs) = sdocs)
   \<and> (acceptedServiceRequestBody env sbody \<and> hasUser users a
       \<and> nextHumanId ''SRV-'' (map_option requestId (lastCreated sseen)) \<in> requestId ` set sdocs \<longrightarrow>
      createServiceRequestAt env now newOid users a sbody sseen sdocs = (Inl ServerError, sdocs))
   \<and> (distinct (map requestId sdocs) \<longrightarrow>
      distinct (map requestId (snd (createServiceRequestAt env now newOid users a sbody sseen sdocs))))"
proof -
  obtain res docs' where r: "createTicketAt env now newOid users a body seen docs = (res, docs')"
    by (cases "createTicketAt env now newOid users a body seen docs")
  obtain sres sdocs' where sr: "createServiceRequestAt env now newOid users a sbody sseen sdocs = (sres, sdocs')"
    by (cases "createServiceRequestAt env now newOid users a sbody sseen sdocs")
  have 1: "nextHumanId ''TKT-'' (map_option ticketId (lastCreated seen)) \<in> ticketId ` set docs \<longrightarrow>
      isl (fst (createTicketAt env now newOid users a body seen docs))
      \<and> snd (createTicketAt env now newOid users a body seen docs) = docs"
    using createTicketAt_cases [OF r] unfolding r by auto
  have 2: "acceptedTicketBody env body \<and> hasLocation users a
       \<and> nextHumanId ''TKT-'' (map_option ticketId (lastCreated seen)) \<in> ticketId ` set docs \<longrightarrow>
      createTicketAt env now newOid users a body seen docs = (Inl ServerError, docs)"
    using createTicketAt_collision by blast
  have 3: "distinct (map ticketId docs) \<longrightarrow>
      distinct (map ticketId (snd (createTicketAt env now newOid users a body seen docs)))"
    using createTicketAt_distinct by blast
  have 4: "nextHumanId ''SRV-'' (map_option requestId (lastCreated sseen)) \<in> requestId ` set sdocs \<longrightarrow>
      isl (fst (createServiceRequestAt env now newOid users a sbody sseen sdocs))
      \<and> snd (createServiceRequestAt env now newOid users a sbody sseen sdocs) = sdocs"
    using createServiceRequestAt_cases [OF sr] unfolding sr by auto
  have 5: "acceptedServiceRequestBody env sbody \<and> hasUser users a
       \<and> nextHumanId ''SRV-'' (map_option requestId (lastCreated sseen)) \<in> requestId ` set sdocs \<longrightarrow>
      createServiceRequestAt env now newOid users a sbody sseen sdocs = (Inl ServerError, sdocs)"
    using createServiceRequestAt_collision by blast
  have 6: "distinct (map requestId sdocs) \<longrightarrow>
      distinct (map requestId (snd (createServiceRequestAt env now newOid users a sbody sseen sdocs)))"
    using createServiceRequestAt_distinct by blast
  from 1 2 3 4 5 6 show ?thesis by blast
qed


theorem collision_fails_without_retry_witness:
  "nextHumanId ''TKT-'' (map_option ticketId (lastCreated [])) \<in> ticketId ` set [sampleTicket]
   \<and> acceptedTicketBody sampleDates sampleTicketBody \<and> hasLocation sampleUsers bob
   \<and> distinct (map ticketId [sampleTicket])
   \<and> createTicketAt sampleDates 2000 ''650000000000000000000002'' sampleUsers bob sampleTicketBody [] [sampleTicket]
       = (Inl ServerError, [sampleTicket])
   \<and> nextHumanId ''SRV-'' (map_option requestId (lastCreated [])) \<in> requestId ` set [sampleRequest]
   \<and> acceptedServiceRequestBody sampleDates sampleRequestBody \<and> hasUser sampleUsers bob
   \<and> distinct (map requestId [sampleRequest])
   \<and> createServiceRequestAt sampleDates 2000 ''650000000000000000000002'' sampleUsers bob sampleRequestBody [] [sampleRequest]
       = (Inl ServerError, [sampleRequest])"
proof -
  have h1: "nextHumanId ''TKT-'' (map_option ticketId (lastCreated [])) \<in> ticketId ` set [sampleTicket]"
    by (simp add: lastCreated_Nil first_TKT sampleTicket_def)
  have h2: "nextHumanId ''SRV-'' (map_option requestId (lastCreated [])) \<in> requestId ` set [sampleRequest]"
    by (simp add: lastCreated_Nil first_SRV sampleRequest_def)
  have d1: "distinct (map ticketId [sampleTicket])" by simp
  have d2: "distinct (map requestId [sampleRequest])" by simp
  note T = collision_fails_without_retry [of "[]" "[sampleTicket]" sampleDates 2000
      "''650000000000000000000002''" sampleUsers bob sampleTicketBody "[]" "[sampleRequest]" sampleRequestBody]
  have A: "createTicketAt sampleDates 2000 ''650000000000000000000002'' sampleUsers bob sampleTicketBody [] [sampleTicket]
       = (Inl ServerError, [sampleTicket])"
    by (rule mp [OF T [THEN conjunct2, THEN conjunct1]]) (intro conjI sample_accepted bob_located h1)
  have B: "createServiceRequestAt sampleDates 2000 ''650000000000000000000002'' sampleUsers bob sampleRequestBody [] [sampleRequest]
       = (Inl ServerError, [sampleRequest])"
    by (rule mp [OF T [THEN conjunct2, THEN conjunct2, THEN conjunct2, THEN conjunct2, THEN conjunct1]])
      (intro conjI sampleRequestBody_accepted bob_stored h2)
  show ?thesis
    by (intro conjI h1 h2 sample_accepted bob_located sampleRequestBody_accepted bob_stored d1 d2 A B)
qed

text \<open>
  Claim C4 as stated fails: two creations both read the empty collection; the first stores
  \<^verbatim>\<open>TKT-000001\<close>, the second collides and is answered with the server error at once,
  although a freshly computed value (\<^verbatim>\<open>TKT-000002\<close>, what a creation that reads the
  collection again obtains) would have been accepted.
\<close>

theorem first_collision_is_final:
  "createTicketAt sampleDates 2000 ''650000000000000000000002'' sampleUsers bob sampleTicketBody []
       (snd (createTicket sampleDates 1000 ''650000000000000000000001'' sampleUsers alice sampleTicketBody []))
     = (Inl ServerError,
        snd (createTicket sampleDates 1000 ''650000000000000000000001'' sampleUsers alice sampleTicketBody []))
   \<and> map_sum id ticketId
        (fst (createTicket sampleDates 2000 ''650000000000000000000002'' sampleUsers bob sampleTicketBody
               (snd (createTicket sampleDates 1000 ''650000000000000000000001'' sampleUsers alice sampleTicketBody []))))
     = Inr ''TKT-000002''"
proof -
  let ?o1 = "''650000000000000000000001''" and ?o2 = "''650000000000000000000002''"
  have fresh0: "\<forall>d \<in> set []. ticketId d \<noteq> nextHumanId ''TKT-'' (map_option ticketId (lastCreated [])) \<and> oid d \<noteq> ?o1"
    by simp
  from createTicketAt_accepted [OF sample_accepted alice_located fresh0, of 1000]
  obtain t1 where t1: "createTicket sampleDates 1000 ?o1 sampleUsers alice sampleTicketBody [] = (Inr t1, [t1])"
    "ticketId t1 = ''TKT-000001''" "oid t1 = ?o1"
    by (auto simp: createTicket_def lastCreated_Nil first_TKT)
  have hit: "nextHumanId ''TKT-'' (map_option ticketId (lastCreated [])) \<in> ticketId ` set [t1]"
    using t1 by (simp add: lastCreated_Nil first_TKT)
  have fail: "createTicketAt sampleDates 2000 ?o2 sampleUsers bob sampleTicketBody [] [t1] = (Inl ServerError, [t1])"
    using sample_accepted bob_located hit by (rule createTicketAt_collision)
  have fresh1: "\<forall>d \<in> set [t1]. ticketId d \<noteq> nextHumanId ''TKT-'' (map_option ticketId (lastCreated [t1])) \<and> oid d \<noteq> ?o2"
    using t1 by (simp add: lastCreated_single next_after_first)
  from createTicketAt_accepted [OF sample_accepted bob_located fresh1, of 2000]
  obtain t2 where t2: "createTicket sampleDates 2000 ?o2 sampleUsers bob sampleTicketBody [t1] = (Inr t2, [t1, t2])"
    "ticketId t2 = ''TKT-000002''"
    using t1 by (auto simp: createTicket_def lastCreated_single next_after_first)
  from t1 fail t2 show ?thesis by simp
qed

section \<open>Claims about status updates\<close>

lemma findById_oid: "findById i docs = Some d \<Longrightarrow> oid d = i"
  by (auto simp: findById_def find_Some_iff)

lemma findById_mem: "findById i docs = Some d \<Longrightarrow> d \<in> set docs"
  by (auto simp: findById_def find_Some_iff)

lemma findById_replaceDoc:
  "findById i docs = Some d \<Longrightarrow> oid d' = i \<Longrightarrow> findById i (replaceDoc d' docs) = Some d'"
  by (induction docs) (auto simp: findById_def split: if_splits)

lemma replaceDoc_length: "length (replaceDoc d docs) = length docs"
  by (induction docs) auto

lemma sampleAdmin_role: "role sampleAdmin = ''admin''"
  by (simp add: sampleAdmin_def)

lemma find_sampleRequest: "findById ''660000000000000000000001'' [sampleRequest] = Some sampleRequest"
  by (simp add: findById_def sampleRequest_def)

lemma find_completedRequest: "findById ''660000000000000000000001'' [completedRequest] = Some completedRequest"
  by (simp add: findById_def completedRequest_def sampleRequest_def)

lemma find_scheduledTicket: "findById ''650000000000000000000001'' [scheduledTicket] = Some scheduledTicket"
  by (simp add: findById_def scheduledTicket_def sampleTicket_def)

lemma find_scheduledRequest: "findById ''660000000000000000000001'' [scheduledRequest] = Some scheduledRequest"
  by (simp add: findById_def scheduledRequest_def sampleRequest_def)

text \<open>
  Claim C1. An administrator updates the status of a stored service request to a status
  \<open>s\<close> of the schema (the visit date, when given, being a date). The update succeeds and
  the stored request has status \<open>s\<close>; if \<open>s\<close> is \<^verbatim>\<open>Completed\<close> and the request was not,
  \<^verbatim>\<open>completedAt\<close> is the current time; if the request was \<^verbatim>\<open>Completed\<close> and \<open>s\<close> is
  not, \<^verbatim>\<open>completedAt\<close> is cleared; between two other statuses \<^verbatim>\<open>completedAt\<close> is
  unchanged.
\<close>

theorem completedAt_follows_status:
  assumes adm: "role a = ''admin''" and found: "findById i docs = Some r"
    and st: "truthy newStatus = Some s" and enum: "s \<in> set serviceRequestStatuses"
    and visit: "case truthy newVisit of None \<Rightarrow> True | Some v \<Rightarrow> castDate env v \<noteq> None"
  shows "\<exists>r'. fst (updateServiceRequest env now a i newStatus newVisit docs) = Inr r'
           \<and> findById i (snd (updateServiceRequest env now a i newStatus newVisit docs)) = Some r'
           \<and> status r' = s
           \<and> (s = ''Completed'' \<and> status r \<noteq> ''Completed'' \<longrightarrow> completedAt r' = Some now)
           \<and> (s \<noteq> ''Completed'' \<and> status r = ''Completed'' \<longrightarrow> completedAt r' = None)
           \<and> (s \<noteq> ''Completed'' \<and> status r \<noteq> ''Completed'' \<longrightarrow> completedAt r' = completedAt r)"
proof -
  define r1 where "r1 = (if s = ''Completed'' \<and> status r \<noteq> ''Completed''
                          then r\<lparr>completedAt := Some now\<rparr>
                          else if s \<noteq> ''Completed'' \<and> status r = ''Completed''
                               then r\<lparr>completedAt := None\<rparr>
                               else r)\<lparr>status := s\<rparr>"
  have oid_r: "oid r = i" using found by (rule findById_oid)
  have saved: "\<exists>r'. fst (saveServiceRequest now r new docs) = Inr r'
           \<and> findById i (snd (saveServiceRequest now r new docs)) = Some r'
           \<and> status r' = s \<and> completedAt r' = completedAt r1"
    if new: "status new = s" "completedAt new = completedAt r1" "oid new = i" for new
  proof (cases "new = r")
    case True
    with new found show ?thesis by (simp add: saveServiceRequest_def)
  next
    case False
    have "findById i (replaceDoc (new\<lparr>updatedAt := now\<rparr>) docs) = Some (new\<lparr>updatedAt := now\<rparr>)"
      using found new(3) by (intro findById_replaceDoc) simp_all
    with False new enum show ?thesis by (simp add: saveServiceRequest_def Let_def)
  qed
  have c: "(s = ''Completed'' \<and> status r \<noteq> ''Completed'' \<longrightarrow> completedAt r1 = Some now)
           \<and> (s \<noteq> ''Completed'' \<and> status r = ''Completed'' \<longrightarrow> completedAt r1 = None)
           \<and> (s \<noteq> ''Completed'' \<and> status r \<noteq> ''Completed'' \<longrightarrow> completedAt r1 = completedAt r)"
    by (simp add: r1_def)
  show ?thesis
  proof (cases "truthy newVisit")
    case None
    have "updateServiceRequest env now a i newStatus newVisit docs = saveServiceRequest now r r1 docs"
      using adm found st None by (simp add: updateServiceRequest_def r1_def)
    moreover have "status r1 = s" "oid r1 = i" using oid_r by (simp_all add: r1_def)
    ultimately show ?thesis using saved [of r1] c by auto
  next
    case (Some v)
    with visit obtain ms where ms: "castDate env v = Some ms" by auto
    have "updateServiceRequest env now a i newStatus newVisit docs
            = saveServiceRequest now r (r1\<lparr>assignedVisitAt := Some ms\<rparr>) docs"
      using adm found st Some ms by (simp add: updateServiceRequest_def r1_def)
    moreover have "status (r1\<lparr>assignedVisitAt := Some ms\<rparr>) = s" "oid (r1\<lparr>assignedVisitAt := Some ms\<rparr>) = i"
      "completedAt (r1\<lparr>assignedVisitAt := Some ms\<rparr>) = completedAt r1"
      using oid_r by (simp_all add: r1_def)
    ultimately show ?thesis using saved [of "r1\<lparr>assignedVisitAt := Some ms\<rparr>"] c by auto
  qed
qed


theorem completedAt_follows_status_witness:
  "role sampleAdmin = ''admin''
   \<and> findById ''660000000000000000000001'' [sampleRequest] = Some sampleRequest
   \<and> findById ''660000000000000000000001'' [completedRequest] = Some completedRequest
   \<and> truthy (Some ''Completed'') = Some ''Completed'' \<and> ''Completed'' \<in> set serviceRequestStatuses
   \<and> truthy (Some ''In Progress'') = Some ''In Progress'' \<and> ''In Progress'' \<in> set serviceRequestStatuses
   \<and> status sampleRequest \<noteq> ''Completed'' \<and> status completedRequest = ''Completed''
   \<and> (\<exists>r'. fst (updateServiceRequest sampleDates 5000 sampleAdmin ''660000000000000000000001''
                  (Some ''Completed'') None [sampleRequest]) = Inr r'
            \<and> status r' = ''Completed'' \<and> completedAt r' = Some 5000)
   \<and> (\<exists>r'. fst (updateServiceRequest sampleDates 5000 sampleAdmin ''660000000000000000000001''
                  (Some ''In Progress'') None [completedRequest]) = Inr r'
            \<and> status r' = ''In Progress'' \<and> completedAt r' = None)
   \<and> (\<exists>r'. fst (updateServiceRequest sampleDates 5000 sampleAdmin ''660000000000000000000001''
                  (Some ''In Progress'') None [sampleRequest]) = Inr r'
            \<and> status r' = ''In Progress'' \<and> completedAt r' = completedAt sampleRequest)"
proof -
  have t1: "truthy (Some ''Completed'') = Some ''Completed''" by (simp add: truthy_def)
  have e1: "''Completed'' \<in> set serviceRequestStatuses" by (simp add: serviceRequestStatuses_def)
  have t2: "truthy (Some ''In Progress'') = Some ''In Progress''" by (simp add: truthy_def)
  have e2: "''In Progress'' \<in> set serviceRequestStatuses" by (simp add: serviceRequestStatuses_def)
  have v: "case truthy None of None \<Rightarrow> True | Some v \<Rightarrow> castDate sampleDates v \<noteq> None"
    by (simp add: truthy_def)
  have s1: "status sampleRequest \<noteq> ''Completed''" by (simp add: sampleRequest_def)
  have s2: "status completedRequest = ''Completed''" by (simp add: completedRequest_def)
  have ne: "''In Progress'' \<noteq> ''Completed''" by simp
  note T1 = completedAt_follows_status [OF sampleAdmin_role find_sampleRequest t1 e1 v, of 5000]
  note T2 = completedAt_follows_status [OF sampleAdmin_role find_completedRequest t2 e2 v, of 5000]
  note T3 = completedAt_follows_status [OF sampleAdmin_role find_sampleRequest t2 e2 v, of 5000]
  from T1 s1
  have A: "\<exists>r'. fst (updateServiceRequest sampleDates 5000 sampleAdmin ''660000000000000000000001''
                  (Some ''Completed'') None [sampleRequest]) = Inr r'
            \<and> status r' = ''Completed'' \<and> completedAt r' = Some 5000" by (elim exE conjE) simp
  from T2 s2 ne
  have B: "\<exists>r'. fst (updateServiceRequest sampleDates 5000 sampleAdmin ''660000000000000000000001''
                  (Some ''In Progress'') None [completedRequest]) = Inr r'
            \<and> status r' = ''In Progress'' \<and> completedAt r' = None" by (elim exE conjE) simp
  from T3 s1 ne
  have C: "\<exists>r'. fst (updateServiceRequest sampleDates 5000 sampleAdmin ''660000000000000000000001''
                  (Some ''In Progress'') None [sampleRequest]) = Inr r'
            \<and> status r' = ''In Progress'' \<and> completedAt r' = completedAt sampleRequest" by (elim exE conjE) simp
  show ?thesis
    by (intro conjI sampleAdmin_role find_sampleRequest find_completedRequest t1 e1 t2 e2 s1 s2 A B C)
qed


text \<open>
  Claim C7. An administrator's update whose status is absent or equal to the current one,
  and whose visit date is absent or denotes the instant already stored, returns the request
  as it is and leaves the collection as it is, \<^verbatim>\<open>updatedAt\<close> included. This holds for
  tickets (\<^verbatim>\<open>updateTicket\<close> returns before any write) and for service requests
  (\<^verbatim>\<open>save()\<close> finds no changed path).
\<close>

theorem unchanged_update_writes_nothing:
  assumes adm: "role a = ''admin''"
  shows "(findById i tdocs = Some t
          \<and> (truthy newStatus = None \<or> newStatus = Some (status t))
          \<and> (newVisit = None \<or> (\<exists>v ms. newVisit = Some v \<and> newDate env v = Some ms \<and> assignedVisitAt t = Some ms))
          \<longrightarrow> updateTicket env a i newStatus newVisit tdocs = (Inr t, tdocs))
       \<and> (findById i rdocs = Some r
          \<and> (truthy newStatus = None \<or> newStatus = Some (status r))
          \<and> (truthy newVisit = None \<or> (\<exists>v ms. newVisit = Some v \<and> castDate env v = Some ms \<and> assignedVisitAt r = Some ms))
          \<longrightarrow> updateServiceRequest env now a i newStatus newVisit rdocs = (Inr r, rdocs))"
proof (intro conjI impI)
  assume h: "findById i tdocs = Some t
          \<and> (truthy newStatus = None \<or> newStatus = Some (status t))
          \<and> (newVisit = None \<or> (\<exists>v ms. newVisit = Some v \<and> newDate env v = Some ms \<and> assignedVisitAt t = Some ms))"
  then have sc: "statusChange newStatus t = None"
    by (auto simp: statusChange_def truthy_def split: option.splits)
  from h have vc: "visitChange env newVisit t = Inr None"
    by (auto simp: visitChange_def split: option.splits)
  from h adm sc vc show "updateTicket env a i newStatus newVisit tdocs = (Inr t, tdocs)"
    by (simp add: updateTicket_def)
next
  assume h: "findById i rdocs = Some r
          \<and> (truthy newStatus = None \<or> newStatus = Some (status r))
          \<and> (truthy newVisit = None \<or> (\<exists>v ms. newVisit = Some v \<and> castDate env v = Some ms \<and> assignedVisitAt r = Some ms))"
  then have found: "findById i rdocs = Some r" by simp
  have r1: "(case truthy newStatus of
                       None \<Rightarrow> r
                     | Some s \<Rightarrow>
                         (if s = ''Completed'' \<and> status r \<noteq> ''Completed''
                          then r\<lparr>completedAt := Some now\<rparr>
                          else if s \<noteq> ''Completed'' \<and> status r = ''Completed''
                               then r\<lparr>completedAt := None\<rparr>
                               else r)\<lparr>status := s\<rparr>) = r"
  proof (cases "truthy newStatus")
    case None
    then show ?thesis by simp
  next
    case (Some s)
    with h have "newStatus = Some (status r)" by simp
    with Some have s: "s = status r" by (simp add: truthy_def split: if_splits)
    have "r\<lparr>status := status r\<rparr> = r" by simp
    with Some show ?thesis unfolding s by simp
  qed
  have same: "saveServiceRequest now r r rdocs = (Inr r, rdocs)"
    by (simp add: saveServiceRequest_def)
  have "truthy newVisit = None \<or> (\<exists>v ms. truthy newVisit = Some v \<and> castDate env v = Some ms \<and> assignedVisitAt r = Some ms)"
  proof (cases "truthy newVisit")
    case None
    then show ?thesis by simp
  next
    case (Some v)
    with h obtain v' ms where v': "newVisit = Some v'" "castDate env v' = Some ms" "assignedVisitAt r = Some ms"
      by auto
    with Some have "v = v'" by (simp add: truthy_def split: if_splits)
    with v' Some show ?thesis by auto
  qed
  then show "updateServiceRequest env now a i newStatus newVisit rdocs = (Inr r, rdocs)"
  proof
    assume "truthy newVisit = None"
    with adm found r1 same show ?thesis by (simp add: updateServiceRequest_def)
  next
    assume "\<exists>v ms. truthy newVisit = Some v \<and> castDate env v = Some ms \<and> assignedVisitAt r = Some ms"
    then obtain v ms where v: "truthy newVisit = Some v" "castDate env v = Some ms" "assignedVisitAt r = Some ms"
      by blast
    then have eq: "r\<lparr>assignedVisitAt := Some ms\<rparr> = r" by simp
    have "updateServiceRequest env now a i newStatus newVisit rdocs
            = saveServiceRequest now r (r\<lparr>assignedVisitAt := Some ms\<rparr>) rdocs"
      using adm found r1 v(1,2) by (simp add: updateServiceRequest_def)
    also have "\<dots> = saveServiceRequest now r r rdocs" by (simp only: eq)
    also note same
    finally show ?thesis .
  qed
qed

theorem unchanged_update_writes_nothing_witness:
  "role sampleAdmin = ''admin''
   \<and> findById ''650000000000000000000001'' [scheduledTicket] = Some scheduledTicket
   \<and> Some ''New'' = Some (status scheduledTicket)
   \<and> newDate sampleDates ''2025-01-01T00:00:00.000Z'' = Some 1735689600000
   \<and> assignedVisitAt scheduledTicket = Some 1735689600000
   \<and> updateTicket sampleDates sampleAdmin ''650000000000000000000001'' (Some ''New'')
        (Some ''2025-01-01T00:00:00.000Z'') [scheduledTicket] = (Inr scheduledTicket, [scheduledTicket])
   \<and> findById ''660000000000000000000001'' [scheduledRequest] = Some scheduledRequest
   \<and> Some ''New'' = Some (status scheduledRequest)
   \<and> castDate sampleDates ''2025-01-01T00:00:00.000Z'' = Some 1735689600000
   \<and> assignedVisitAt scheduledRequest = Some 1735689600000
   \<and> updateServiceRequest sampleDates 5000 sampleAdmin ''660000000000000000000001'' (Some ''New'')
        (Some ''2025-01-01T00:00:00.000Z'') [scheduledRequest] = (Inr scheduledRequest, [scheduledRequest])"
proof -
  have st: "Some ''New'' = Some (status scheduledTicket)"
    by (simp add: scheduledTicket_def sampleTicket_def)
  have sr: "Some ''New'' = Some (status scheduledRequest)"
    by (simp add: scheduledRequest_def sampleRequest_def)
  have nd: "newDate sampleDates ''2025-01-01T00:00:00.000Z'' = Some 1735689600000"
    by (simp add: sampleDates_def)
  have cd: "castDate sampleDates ''2025-01-01T00:00:00.000Z'' = Some 1735689600000"
    by (simp add: sampleDates_def)
  have vt: "assignedVisitAt scheduledTicket = Some 1735689600000"
    by (simp add: scheduledTicket_def)
  have vr: "assignedVisitAt scheduledRequest = Some 1735689600000"
    by (simp add: scheduledRequest_def)
  note T1 = unchanged_update_writes_nothing [OF sampleAdmin_role,
      where i = "''650000000000000000000001''" and tdocs = "[scheduledTicket]" and t = scheduledTicket
        and newStatus = "Some ''New''" and newVisit = "Some ''2025-01-01T00:00:00.000Z''"
        and env = sampleDates, THEN conjunct1]
  note T2 = unchanged_update_writes_nothing [OF sampleAdmin_role,
      where i = "''660000000000000000000001''" and rdocs = "[scheduledRequest]" and r = scheduledRequest
        and newStatus = "Some ''New''" and newVisit = "Some ''2025-01-01T00:00:00.000Z''"
        and env = sampleDates and now = 5000, THEN conjunct2]
  have A: "updateTicket sampleDates sampleAdmin ''650000000000000000000001'' (Some ''New'')
        (Some ''2025-01-01T00:00:00.000Z'') [scheduledTicket] = (Inr scheduledTicket, [scheduledTicket])"
    by (rule mp [OF T1]) (use find_scheduledTicket st nd vt in blast)
  have B: "updateServiceRequest sampleDates 5000 sampleAdmin ''660000000000000000000001'' (Some ''New'')
        (Some ''2025-01-01T00:00:00.000Z'') [scheduledRequest] = (Inr scheduledRequest, [scheduledRequest])"
    by (rule mp [OF T2]) (use find_scheduledRequest sr cd vr in blast)
  show ?thesis
    by (intro conjI sampleAdmin_role find_scheduledTicket st nd vt A find_scheduledRequest sr cd vr B)
qed

section \<open>Claims about acknowledgement and access\<close>

lemma find_sampleTicket: "findById ''650000000000000000000001'' [sampleTicket] = Some sampleTicket"
  by (simp add: findById_def sampleTicket_def)

lemma bob_role: "role bob \<noteq> ''admin''"
  by (simp add: bob_def)

lemma alice_stored: "findUser (userId sampleTicket) sampleUsers \<noteq> None"
  by (simp add: findUser_def sampleTicket_def sampleUsers_def)

text \<open>
  Claim C2. Calling \<^verbatim>\<open>markReplyAsSeen\<close> a second time with the same request, index and
  user leaves the collection exactly as the first call left it (the second call does not
  save). For the owner and an index within the timeline both calls answer with the same
  request, whose entry holds the user in \<^verbatim>\<open>seenBy\<close>: the list is the old one when the user
  was in it, else the old one with the user appended, so a user who occurred at most once
  occurs exactly once afterwards.
\<close>

theorem markReplyAsSeen_idempotent:
  "snd (markReplyAsSeen now' a i idx (snd (markReplyAsSeen now a i idx docs)))
     = snd (markReplyAsSeen now a i idx docs)
   \<and> (findById i docs = Some d \<and> userId d = uid a \<and> idx < length (timeline d) \<longrightarrow>
        (\<exists>d1. fst (markReplyAsSeen now a i idx docs) = Inr d1
           \<and> findById i (snd (markReplyAsSeen now a i idx docs)) = Some d1
           \<and> fst (markReplyAsSeen now' a i idx (snd (markReplyAsSeen now a i idx docs))) = Inr d1
           \<and> length (timeline d1) = length (timeline d)
           \<and> seenBy (timeline d1 ! idx)
                = (if uid a \<in> set (seenBy (timeline d ! idx)) then seenBy (timeline d ! idx)
                   else seenBy (timeline d ! idx) @ [uid a])
           \<and> uid a \<in> set (seenBy (timeline d1 ! idx))
           \<and> (count_list (seenBy (timeline d ! idx)) (uid a) \<le> 1 \<longrightarrow>
                count_list (seenBy (timeline d1 ! idx)) (uid a) = 1)))"
proof -
  let ?r1 = "markReplyAsSeen now a i idx docs"
  have main: "snd (markReplyAsSeen now' a i idx (snd ?r1)) = snd ?r1
     \<and> (userId d = uid a \<and> idx < length (timeline d) \<longrightarrow>
        (\<exists>d1. fst ?r1 = Inr d1 \<and> findById i (snd ?r1) = Some d1
           \<and> fst (markReplyAsSeen now' a i idx (snd ?r1)) = Inr d1
           \<and> length (timeline d1) = length (timeline d)
           \<and> seenBy (timeline d1 ! idx)
                = (if uid a \<in> set (seenBy (timeline d ! idx)) then seenBy (timeline d ! idx)
                   else seenBy (timeline d ! idx) @ [uid a])))"
    if found: "findById i docs = Some d" for d
  proof (cases "userId d = uid a \<and> idx < length (timeline d)")
    case False
    with found have "?r1 = (Inl Forbidden, docs) \<or> ?r1 = (Inl NotFound, docs)"
      by (auto simp: markReplyAsSeen_def)
    with found False show ?thesis by (auto simp: markReplyAsSeen_def)
  next
    case True
    show ?thesis
    proof (cases "uid a \<in> set (seenBy (timeline d ! idx))")
      case seen: True
      with found True have "?r1 = (Inr d, docs)" by (simp add: markReplyAsSeen_def Let_def)
      moreover from found True seen have "markReplyAsSeen now' a i idx docs = (Inr d, docs)"
        by (simp add: markReplyAsSeen_def Let_def)
      ultimately show ?thesis using found seen by simp
    next
      case unseen: False
      define e' where "e' = (timeline d ! idx)\<lparr>seenBy := seenBy (timeline d ! idx) @ [uid a]\<rparr>"
      define d' where "d' = d\<lparr>timeline := (timeline d)[idx := e'], updatedAt := now\<rparr>"
      have r1: "?r1 = (Inr d', replaceDoc d' docs)"
        using found True unseen by (simp add: markReplyAsSeen_def Let_def d'_def e'_def)
      have oid': "oid d' = i" using findById_oid [OF found] by (simp add: d'_def)
      have f': "findById i (replaceDoc d' docs) = Some d'"
        using found oid' by (rule findById_replaceDoc)
      have e: "timeline d' ! idx = e'" using True by (simp add: d'_def)
      have props: "userId d' = uid a" "idx < length (timeline d')" "uid a \<in> set (seenBy (timeline d' ! idx))"
        using True by (simp_all add: e) (simp_all add: d'_def e'_def)
      have r2: "markReplyAsSeen now' a i idx (replaceDoc d' docs) = (Inr d', replaceDoc d' docs)"
        using f' props by (simp add: markReplyAsSeen_def Let_def)
      have "seenBy (timeline d' ! idx) = seenBy (timeline d ! idx) @ [uid a]"
        by (simp add: e) (simp add: e'_def)
      moreover have "length (timeline d') = length (timeline d)" by (simp add: d'_def)
      ultimately show ?thesis using r1 r2 f' unseen by simp
    qed
  qed
  show ?thesis
  proof (cases "findById i docs")
    case None
    then have "?r1 = (Inl NotFound, docs)" by (simp add: markReplyAsSeen_def)
    with None show ?thesis by (simp add: markReplyAsSeen_def)
  next
    case (Some d0)
    from main [OF Some] have m: "snd (markReplyAsSeen now' a i idx (snd ?r1)) = snd ?r1" by blast
    show ?thesis
    proof (intro conjI impI)
      show "snd (markReplyAsSeen now' a i idx (snd ?r1)) = snd ?r1" by (rule m)
    next
      assume h: "findById i docs = Some d \<and> userId d = uid a \<and> idx < length (timeline d)"
      then have fd: "findById i docs = Some d" by simp
      from main [OF fd] h obtain d1 where d1: "fst ?r1 = Inr d1" "findById i (snd ?r1) = Some d1"
        "fst (markReplyAsSeen now' a i idx (snd ?r1)) = Inr d1"
        "length (timeline d1) = length (timeline d)"
        "seenBy (timeline d1 ! idx)
                = (if uid a \<in> set (seenBy (timeline d ! idx)) then seenBy (timeline d ! idx)
                   else seenBy (timeline d ! idx) @ [uid a])" by blast
      have mem: "uid a \<in> set (seenBy (timeline d1 ! idx))" by (simp add: d1(5))
      have cnt: "count_list (seenBy (timeline d ! idx)) (uid a) \<le> 1 \<longrightarrow>
                count_list (seenBy (timeline d1 ! idx)) (uid a) = 1"
      proof (cases "uid a \<in> set (seenBy (timeline d ! idx))")
        case True
        then have "count_list (seenBy (timeline d ! idx)) (uid a) \<noteq> 0"
          by (simp add: count_list_0_iff)
        with True show ?thesis by (simp add: d1(5))
      next
        case False
        then have "count_list (seenBy (timeline d ! idx)) (uid a) = 0" by (simp add: count_list_0_iff)
        with False show ?thesis by (simp add: d1(5))
      qed
      from d1 mem cnt show "\<exists>d1. fst ?r1 = Inr d1
           \<and> findById i (snd ?r1) = Some d1
           \<and> fst (markReplyAsSeen now' a i idx (snd ?r1)) = Inr d1
           \<and> length (timeline d1) = length (timeline d)
           \<and> seenBy (timeline d1 ! idx)
                = (if uid a \<in> set (seenBy (timeline d ! idx)) then seenBy (timeline d ! idx)
                   else seenBy (timeline d ! idx) @ [uid a])
           \<and> uid a \<in> set (seenBy (timeline d1 ! idx))
           \<and> (count_list (seenBy (timeline d ! idx)) (uid a) \<le> 1 \<longrightarrow>
                count_list (seenBy (timeline d1 ! idx)) (uid a) = 1)" by blast
    qed
  qed
qed


theorem markReplyAsSeen_idempotent_witness:
  "findById ''650000000000000000000001'' [sampleTicket] = Some sampleTicket
   \<and> userId sampleTicket = uid alice \<and> 0 < length (timeline sampleTicket)
   \<and> count_list (seenBy (timeline sampleTicket ! 0)) (uid alice) \<le> 1
   \<and> snd (markReplyAsSeen 7000 alice ''650000000000000000000001'' 0
             (snd (markReplyAsSeen 6000 alice ''650000000000000000000001'' 0 [sampleTicket])))
       = snd (markReplyAsSeen 6000 alice ''650000000000000000000001'' 0 [sampleTicket])
   \<and> (\<exists>d1. fst (markReplyAsSeen 6000 alice ''650000000000000000000001'' 0 [sampleTicket]) = Inr d1
          \<and> fst (markReplyAsSeen 7000 alice ''650000000000000000000001'' 0
                  (snd (markReplyAsSeen 6000 alice ''650000000000000000000001'' 0 [sampleTicket]))) = Inr d1
          \<and> seenBy (timeline d1 ! 0) = [aliceId]
          \<and> count_list (seenBy (timeline d1 ! 0)) (uid alice) = 1)"
proof -
  have own: "userId sampleTicket = uid alice" by (simp add: sampleTicket_def alice_def)
  have len: "0 < length (timeline sampleTicket)" by (simp add: sampleTicket_def)
  have sb: "seenBy (timeline sampleTicket ! 0) = []" by (simp add: sampleTicket_def sampleEntry_def)
  have cnt: "count_list (seenBy (timeline sampleTicket ! 0)) (uid alice) \<le> 1" by (simp add: sb)
  have ua: "uid alice = aliceId" by (simp add: alice_def)
  note T = markReplyAsSeen_idempotent [of 7000 alice "''650000000000000000000001''" 0 6000 "[sampleTicket]" sampleTicket]
  from T have A: "snd (markReplyAsSeen 7000 alice ''650000000000000000000001'' 0
             (snd (markReplyAsSeen 6000 alice ''650000000000000000000001'' 0 [sampleTicket])))
       = snd (markReplyAsSeen 6000 alice ''650000000000000000000001'' 0 [sampleTicket])"
    by (rule conjunct1)
  from mp [OF T [THEN conjunct2]] find_sampleTicket own len
  obtain d1 where d1: "fst (markReplyAsSeen 6000 alice ''650000000000000000000001'' 0 [sampleTicket]) = Inr d1"
    "fst (markReplyAsSeen 7000 alice ''650000000000000000000001'' 0
                  (snd (markReplyAsSeen 6000 alice ''650000000000000000000001'' 0 [sampleTicket]))) = Inr d1"
    "seenBy (timeline d1 ! 0)
                = (if uid alice \<in> set (seenBy (timeline sampleTicket ! 0)) then seenBy (timeline sampleTicket ! 0)
                   else seenBy (timeline sampleTicket ! 0) @ [uid alice])"
    "count_list (seenBy (timeline sampleTicket ! 0)) (uid alice) \<le> 1 \<longrightarrow>
                count_list (seenBy (timeline d1 ! 0)) (uid alice) = 1"
    by blast
  from d1(3) have s1: "seenBy (timeline d1 ! 0) = [aliceId]" by (simp add: sb ua)
  from d1(4) cnt have c1: "count_list (seenBy (timeline d1 ! 0)) (uid alice) = 1" by blast
  from d1(1,2) s1 c1 have B: "\<exists>d1. fst (markReplyAsSeen 6000 alice ''650000000000000000000001'' 0 [sampleTicket]) = Inr d1
          \<and> fst (markReplyAsSeen 7000 alice ''650000000000000000000001'' 0
                  (snd (markReplyAsSeen 6000 alice ''650000000000000000000001'' 0 [sampleTicket]))) = Inr d1
          \<and> seenBy (timeline d1 ! 0) = [aliceId]
          \<and> count_list (seenBy (timeline d1 ! 0)) (uid alice) = 1" by blast
  show ?thesis by (intro conjI find_sampleTicket own len cnt A B)
qed

text \<open>
  Claim C3, as amended. An actor whose role is \<^verbatim>\<open>admin\<close> is never answered 403 by read,
  update-status, delete, add-comment and bulk mark-viewed, on any request (read and delete
  succeed on every stored request). Mark-seen is decided by ownership alone: whoever is not the
  owner of the request, an administrator included, is answered 403 and nothing changes; the
  owner is not.
\<close>

theorem admin_is_not_denied:
  "(role a = ''admin'' \<longrightarrow>
       fst (getById users a i docs) \<noteq> Inl Forbidden
       \<and> (findById i docs = Some d \<longrightarrow> getById users a i docs = (Inr d, docs))
       \<and> fst (updateTicket env a i newStatus newVisit tdocs) \<noteq> Inl Forbidden
       \<and> fst (updateServiceRequest env now a i newStatus newVisit rdocs) \<noteq> Inl Forbidden
       \<and> fst (deleteById a i docs) \<noteq> Inl Forbidden
       \<and> (findById i docs = Some d \<longrightarrow> deleteById a i docs = (Inr (), remove1 d docs))
       \<and> fst (addComment_ticket now a i msg files tdocs) \<noteq> Inl Forbidden
       \<and> fst (addComment_serviceRequest now a i msg files prices price rdocs) \<noteq> Inl Forbidden
       \<and> fst (markViewedRoute now a ticketIds tdocs) \<noteq> Inl Forbidden)
   \<and> (findById i sdocs = Some sd \<and> userId sd \<noteq> uid b \<longrightarrow>
            markReplyAsSeen now b i idx sdocs = (Inl Forbidden, sdocs))
   \<and> (findById i sdocs = Some sd \<and> userId sd = uid b \<longrightarrow>
            fst (markReplyAsSeen now b i idx sdocs) \<noteq> Inl Forbidden)"
proof (intro conjI impI)
  assume adm: "role a = ''admin''"
  show "fst (getById users a i docs) \<noteq> Inl Forbidden"
    using adm by (simp add: getById_def split: option.splits)
  show "getById users a i docs = (Inr d, docs)" if "findById i docs = Some d"
    using adm that by (simp add: getById_def)
  show "fst (updateTicket env a i newStatus newVisit tdocs) \<noteq> Inl Forbidden"
    using adm
    by (auto simp: updateTicket_def visitChange_def findOneAndUpdate_ticket_def Let_def
        split: option.splits sum.splits if_splits)
  show "fst (updateServiceRequest env now a i newStatus newVisit rdocs) \<noteq> Inl Forbidden"
    using adm
    by (simp add: updateServiceRequest_def saveServiceRequest_def Let_def split: option.splits)
  show "fst (deleteById a i docs) \<noteq> Inl Forbidden"
    using adm by (simp add: deleteById_def split: option.splits)
  show "deleteById a i docs = (Inr (), remove1 d docs)" if "findById i docs = Some d"
    using adm that by (simp add: deleteById_def)
  show "fst (addComment_ticket now a i msg files tdocs) \<noteq> Inl Forbidden"
    using adm by (simp add: addComment_ticket_def Let_def split: option.splits)
  show "fst (addComment_serviceRequest now a i msg files prices price rdocs) \<noteq> Inl Forbidden"
    using adm by (simp add: addComment_serviceRequest_def Let_def split: option.splits)
  show "fst (markViewedRoute now a ticketIds tdocs) \<noteq> Inl Forbidden"
    using adm by (simp add: markViewedRoute_def adminOnly_def markTicketsAsViewed_def split: idsArg.splits)
next
  assume "findById i sdocs = Some sd \<and> userId sd \<noteq> uid b"
  then show "markReplyAsSeen now b i idx sdocs = (Inl Forbidden, sdocs)"
    by (simp add: markReplyAsSeen_def)
next
  assume "findById i sdocs = Some sd \<and> userId sd = uid b"
  then show "fst (markReplyAsSeen now b i idx sdocs) \<noteq> Inl Forbidden"
    by (simp add: markReplyAsSeen_def Let_def)
qed

theorem admin_is_not_denied_witness:
  "role sampleAdmin = ''admin''
   \<and> findById ''650000000000000000000001'' [sampleTicket] = Some sampleTicket
   \<and> getById sampleUsers sampleAdmin ''650000000000000000000001'' [sampleTicket]
        = (Inr sampleTicket, [sampleTicket])
   \<and> deleteById sampleAdmin ''650000000000000000000001'' [sampleTicket] = (Inr (), remove1 sampleTicket [sampleTicket])
   \<and> fst (addComment_ticket 6000 sampleAdmin ''650000000000000000000001'' (Some ''On our way'') None [sampleTicket])
        \<noteq> Inl Forbidden
   \<and> userId sampleTicket \<noteq> uid bob
   \<and> markReplyAsSeen 6000 bob ''650000000000000000000001'' 0 [sampleTicket] = (Inl Forbidden, [sampleTicket])
   \<and> userId sampleTicket = uid alice
   \<and> fst (markReplyAsSeen 6000 alice ''650000000000000000000001'' 0 [sampleTicket]) \<noteq> Inl Forbidden"
proof -
  have nb: "userId sampleTicket \<noteq> uid bob" by (simp add: sampleTicket_def bob_def aliceId_def bobId_def)
  have oa: "userId sampleTicket = uid alice" by (simp add: sampleTicket_def alice_def)
  note T1 = admin_is_not_denied [where a = sampleAdmin and i = "''650000000000000000000001''"
      and docs = "[sampleTicket]" and d = sampleTicket and users = sampleUsers and now = 6000
      and msg = "Some ''On our way''" and files = None and tdocs = "[sampleTicket]"
      and sdocs = "[sampleTicket]" and sd = sampleTicket and b = bob and idx = 0]
  note T2 = admin_is_not_denied [where i = "''650000000000000000000001''" and now = 6000
      and sdocs = "[sampleTicket]" and sd = sampleTicket and b = alice and idx = 0]
  note A = mp [OF T1 [THEN conjunct1] sampleAdmin_role]
  from A find_sampleTicket have g: "getById sampleUsers sampleAdmin ''650000000000000000000001'' [sampleTicket]
        = (Inr sampleTicket, [sampleTicket])" by blast
  from A find_sampleTicket have dl: "deleteById sampleAdmin ''650000000000000000000001'' [sampleTicket]
        = (Inr (), remove1 sampleTicket [sampleTicket])" by blast
  from A have ac: "fst (addComment_ticket 6000 sampleAdmin ''650000000000000000000001'' (Some ''On our way'') None [sampleTicket])
        \<noteq> Inl Forbidden" by blast
  from T1 find_sampleTicket nb
  have ms: "markReplyAsSeen 6000 bob ''650000000000000000000001'' 0 [sampleTicket] = (Inl Forbidden, [sampleTicket])"
    by blast
  from T2 find_sampleTicket oa
  have mo: "fst (markReplyAsSeen 6000 alice ''650000000000000000000001'' 0 [sampleTicket]) \<noteq> Inl Forbidden"
    by blast
  show ?thesis by (intro conjI sampleAdmin_role find_sampleTicket g dl ac nb ms oa mo)
qed

text \<open>
  Claim C3 as stated fails: the administrator who marks an entry of a customer's ticket as
  seen is answered 403.
\<close>

theorem admin_mark_seen_denied:
  "role sampleAdmin = ''admin'' \<and> userId sampleTicket \<noteq> uid sampleAdmin
   \<and> 0 < length (timeline sampleTicket)
   \<and> markReplyAsSeen 6000 sampleAdmin ''650000000000000000000001'' 0 [sampleTicket]
       = (Inl Forbidden, [sampleTicket])"
  by (simp add: markReplyAsSeen_def findById_def sampleTicket_def sampleAdmin_def aliceId_def)

text \<open>
  Claim C5, as amended. For an actor who is neither administrator nor owner of a stored
  request: delete and mark-seen are answered 403; read is answered 403 when the owner's user
  record exists; add-comment is answered 403 when a note is given and 400 when the note is
  missing or empty (the note is checked before the request is loaded). In every case the
  collection is unchanged.
\<close>

theorem stranger_is_denied:
  assumes usr: "role a \<noteq> ''admin''"
  shows "(findById i docs = Some d \<and> userId d \<noteq> uid a \<and> findUser (userId d) users \<noteq> None \<longrightarrow>
            getById users a i docs = (Inl Forbidden, docs))
       \<and> (findById i docs = Some d \<and> userId d \<noteq> uid a \<longrightarrow>
            deleteById a i docs = (Inl Forbidden, docs))
       \<and> (findById i sdocs = Some sd \<and> userId sd \<noteq> uid a \<longrightarrow>
            markReplyAsSeen now a i idx sdocs = (Inl Forbidden, sdocs))
       \<and> (findById i tdocs = Some t \<and> userId t \<noteq> uid a \<longrightarrow>
            addComment_ticket now a i msg files tdocs
              = (if truthy msg = None then (Inl BadRequest, tdocs) else (Inl Forbidden, tdocs)))
       \<and> (findById i rdocs = Some r \<and> userId r \<noteq> uid a \<longrightarrow>
            addComment_serviceRequest now a i msg files prices price rdocs
              = (if truthy msg = None then (Inl BadRequest, rdocs) else (Inl Forbidden, rdocs)))"
proof (intro conjI impI)
  assume h: "findById i docs = Some d \<and> userId d \<noteq> uid a \<and> findUser (userId d) users \<noteq> None"
  then obtain u where u: "findUser (userId d) users = Some u" by auto
  then have "userOid u = userId d" by (auto simp: findUser_def find_Some_iff)
  with h u usr show "getById users a i docs = (Inl Forbidden, docs)"
    by (simp add: getById_def)
next
  assume "findById i docs = Some d \<and> userId d \<noteq> uid a"
  with usr show "deleteById a i docs = (Inl Forbidden, docs)"
    by (simp add: deleteById_def)
next
  assume "findById i sdocs = Some sd \<and> userId sd \<noteq> uid a"
  then show "markReplyAsSeen now a i idx sdocs = (Inl Forbidden, sdocs)"
    by (simp add: markReplyAsSeen_def)
next
  assume "findById i tdocs = Some t \<and> userId t \<noteq> uid a"
  with usr show "addComment_ticket now a i msg files tdocs
              = (if truthy msg = None then (Inl BadRequest, tdocs) else (Inl Forbidden, tdocs))"
    by (auto simp: addComment_ticket_def)
next
  assume "findById i rdocs = Some r \<and> userId r \<noteq> uid a"
  with usr show "addComment_serviceRequest now a i msg files prices price rdocs
              = (if truthy msg = None then (Inl BadRequest, rdocs) else (Inl Forbidden, rdocs))"
    by (auto simp: addComment_serviceRequest_def)
qed

theorem stranger_is_denied_witness:
  "role bob \<noteq> ''admin''
   \<and> findById ''650000000000000000000001'' [sampleTicket] = Some sampleTicket
   \<and> userId sampleTicket \<noteq> uid bob \<and> findUser (userId sampleTicket) sampleUsers \<noteq> None
   \<and> findById ''660000000000000000000001'' [sampleRequest] = Some sampleRequest
   \<and> userId sampleRequest \<noteq> uid bob
   \<and> truthy (Some ''Let me in'') \<noteq> None
   \<and> getById sampleUsers bob ''650000000000000000000001'' [sampleTicket] = (Inl Forbidden, [sampleTicket])
   \<and> deleteById bob ''650000000000000000000001'' [sampleTicket] = (Inl Forbidden, [sampleTicket])
   \<and> markReplyAsSeen 6000 bob ''650000000000000000000001'' 0 [sampleTicket] = (Inl Forbidden, [sampleTicket])
   \<and> addComment_ticket 6000 bob ''650000000000000000000001'' (Some ''Let me in'') None [sampleTicket]
        = (Inl Forbidden, [sampleTicket])
   \<and> addComment_serviceRequest 6000 bob ''660000000000000000000001'' (Some ''Let me in'') None None None [sampleRequest]
        = (Inl Forbidden, [sampleRequest])"
proof -
  have nb: "userId sampleTicket \<noteq> uid bob" by (simp add: sampleTicket_def bob_def aliceId_def bobId_def)
  have nr: "userId sampleRequest \<noteq> uid bob" by (simp add: sampleRequest_def bob_def aliceId_def bobId_def)
  have tn: "truthy (Some ''Let me in'') \<noteq> None" by (simp add: truthy_def)
  note T1 = stranger_is_denied [OF bob_role, where i = "''650000000000000000000001''"
      and docs = "[sampleTicket]" and d = sampleTicket and users = sampleUsers and now = 6000
      and msg = "Some ''Let me in''" and files = None and tdocs = "[sampleTicket]" and t = sampleTicket
      and sdocs = "[sampleTicket]" and sd = sampleTicket and idx = 0]
  note T2 = stranger_is_denied [OF bob_role, where i = "''660000000000000000000001''"
      and now = 6000 and msg = "Some ''Let me in''" and files = None and prices = None and price = None
      and rdocs = "[sampleRequest]" and r = sampleRequest]
  from T1 find_sampleTicket nb alice_stored
  have g: "getById sampleUsers bob ''650000000000000000000001'' [sampleTicket] = (Inl Forbidden, [sampleTicket])"
    by blast
  from T1 find_sampleTicket nb
  have dl: "deleteById bob ''650000000000000000000001'' [sampleTicket] = (Inl Forbidden, [sampleTicket])"
    by blast
  from T1 find_sampleTicket nb
  have ms: "markReplyAsSeen 6000 bob ''650000000000000000000001'' 0 [sampleTicket] = (Inl Forbidden, [sampleTicket])"
    by blast
  from mp [OF T1 [THEN conjunct2, THEN conjunct2, THEN conjunct2, THEN conjunct1]
      conjI [OF find_sampleTicket nb]] tn
  have ct: "addComment_ticket 6000 bob ''650000000000000000000001'' (Some ''Let me in'') None [sampleTicket]
        = (Inl Forbidden, [sampleTicket])" by simp
  from mp [OF T2 [THEN conjunct2, THEN conjunct2, THEN conjunct2, THEN conjunct2]
      conjI [OF find_sampleRequest nr]] tn
  have cr: "addComment_serviceRequest 6000 bob ''660000000000000000000001'' (Some ''Let me in'') None None None [sampleRequest]
        = (Inl Forbidden, [sampleRequest])" by simp
  show ?thesis by (intro conjI bob_role find_sampleTicket nb alice_stored find_sampleRequest nr tn g dl ms ct cr)
qed

text \<open>
  Claim C5 as stated fails: a stranger's comment with an empty note is answered 400, not 403.
\<close>

theorem empty_note_is_rejected_first:
  "role bob \<noteq> ''admin'' \<and> userId sampleTicket \<noteq> uid bob
   \<and> findById ''650000000000000000000001'' [sampleTicket] = Some sampleTicket
   \<and> addComment_ticket 6000 bob ''650000000000000000000001'' (Some []) None [sampleTicket]
       = (Inl BadRequest, [sampleTicket])"
  by (simp add: addComment_ticket_def truthy_def findById_def sampleTicket_def bob_def aliceId_def bobId_def)

section \<open>Claims about listing and bulk marking\<close>

lemma sortNewest_set: "set (sortNewest docs) = set docs"
  by (simp add: sortNewest_def)

lemma sortNewest_length: "length (sortNewest docs) = length docs"
  by (simp add: sortNewest_def)

lemma sortNewest_sorted: "sorted_wrt (\<lambda>x y. createdAt y \<le> createdAt x) (sortNewest docs)"
proof -
  have "sorted (map (\<lambda>d. - createdAt d) (sortNewest docs))"
    by (simp add: sortNewest_def)
  then show ?thesis by (simp add: sorted_map)
qed

lemma alice_role: "role alice \<noteq> ''admin''"
  by (simp add: alice_def)

lemma alices_requests_newest_first:
  "sortNewest (filter (\<lambda>r. userId r = uid alice) [sampleRequest, secondRequest]) = [secondRequest, sampleRequest]"
  by (simp add: sortNewest_def sampleRequest_def secondRequest_def alice_def)

text \<open>
  Claim C8, as amended. For an actor who is not an administrator, \<^verbatim>\<open>getTickets\<close> returns
  all tickets the actor owns and no others, newest first, in one response whatever the
  query says; \<^verbatim>\<open>getServiceRequests\<close> returns, newest first, a page of the service
  requests the actor owns: at most \<open>|limit|\<close> of them, after skipping
  \<open>(page - 1) * limit\<close>, together with the number of owned requests.
\<close>

theorem listing_for_non_admin:
  assumes usr: "role a \<noteq> ''admin''"
  shows "(\<exists>ts. getTickets a q tdocs = (Inr ts, tdocs)
            \<and> set ts = {t \<in> set tdocs. userId t = uid a}
            \<and> length ts = length (filter (\<lambda>t. userId t = uid a) tdocs)
            \<and> sorted_wrt (\<lambda>x y. createdAt y \<le> createdAt x) ts)
       \<and> (0 \<le> (orDefault (q_page q) 1 - 1) * orDefault (q_limit q) 10 \<longrightarrow>
            (\<exists>pg. getServiceRequests a q rdocs = (Inr pg, rdocs)
               \<and> set (requests pg) \<subseteq> {r \<in> set rdocs. userId r = uid a}
               \<and> sorted_wrt (\<lambda>x y. createdAt y \<le> createdAt x) (requests pg)
               \<and> int (length (requests pg)) \<le> \<bar>orDefault (q_limit q) 10\<bar>
               \<and> requests pg = take (nat \<bar>orDefault (q_limit q) 10\<bar>)
                    (drop (nat ((orDefault (q_page q) 1 - 1) * orDefault (q_limit q) 10))
                       (sortNewest (filter (\<lambda>r. userId r = uid a) rdocs)))
               \<and> total pg = int (length (filter (\<lambda>r. userId r = uid a) rdocs))))"
proof (intro conjI impI)
  let ?ts = "sortNewest (filter (\<lambda>t. userId t = uid a) tdocs)"
  have "getTickets a q tdocs = (Inr ?ts, tdocs)"
    using usr by (simp add: getTickets_def Let_def)
  moreover have "set ?ts = {t \<in> set tdocs. userId t = uid a}"
    by (simp add: sortNewest_set)
  moreover have "length ?ts = length (filter (\<lambda>t. userId t = uid a) tdocs)"
    by (rule sortNewest_length)
  moreover have "sorted_wrt (\<lambda>x y. createdAt y \<le> createdAt x) ?ts"
    by (rule sortNewest_sorted)
  ultimately show "\<exists>ts. getTickets a q tdocs = (Inr ts, tdocs)
            \<and> set ts = {t \<in> set tdocs. userId t = uid a}
            \<and> length ts = length (filter (\<lambda>t. userId t = uid a) tdocs)
            \<and> sorted_wrt (\<lambda>x y. createdAt y \<le> createdAt x) ts" by blast
next
  assume skip: "0 \<le> (orDefault (q_page q) 1 - 1) * orDefault (q_limit q) 10"
  let ?lim = "orDefault (q_limit q) 10" and ?pg = "orDefault (q_page q) 1"
  let ?own = "filter (\<lambda>r. userId r = uid a) rdocs"
  let ?rs = "take (nat \<bar>?lim\<bar>) (drop (nat ((?pg - 1) * ?lim)) (sortNewest ?own))"
  let ?page = "\<lparr>requests = ?rs, total = int (length ?own), page = ?pg,
                pages = - ((- int (length ?own)) div ?lim), hasMore = (?pg * ?lim < int (length ?own))\<rparr>"
  have res: "getServiceRequests a q rdocs = (Inr ?page, rdocs)"
    using usr skip by (simp add: getServiceRequests_def Let_def)
  have sub: "set ?rs \<subseteq> {r \<in> set rdocs. userId r = uid a}"
  proof
    fix x assume "x \<in> set ?rs"
    then have "x \<in> set (drop (nat ((?pg - 1) * ?lim)) (sortNewest ?own))" by (rule in_set_takeD)
    then have "x \<in> set (sortNewest ?own)" by (rule in_set_dropD)
    then show "x \<in> {r \<in> set rdocs. userId r = uid a}" by (simp add: sortNewest_set)
  qed
  have srt: "sorted_wrt (\<lambda>x y. createdAt y \<le> createdAt x) ?rs"
    by (intro sorted_wrt_take sorted_wrt_drop sortNewest_sorted)
  have len: "int (length ?rs) \<le> \<bar>?lim\<bar>" by simp
  show "\<exists>pg. getServiceRequests a q rdocs = (Inr pg, rdocs)
               \<and> set (requests pg) \<subseteq> {r \<in> set rdocs. userId r = uid a}
               \<and> sorted_wrt (\<lambda>x y. createdAt y \<le> createdAt x) (requests pg)
               \<and> int (length (requests pg)) \<le> \<bar>orDefault (q_limit q) 10\<bar>
               \<and> requests pg = take (nat \<bar>orDefault (q_limit q) 10\<bar>)
                    (drop (nat ((orDefault (q_page q) 1 - 1) * orDefault (q_limit q) 10))
                       (sortNewest (filter (\<lambda>r. userId r = uid a) rdocs)))
               \<and> total pg = int (length (filter (\<lambda>r. userId r = uid a) rdocs))"
    using res sub srt len by (intro exI [of _ ?page]) simp
qed


theorem listing_for_non_admin_witness:
  "role alice \<noteq> ''admin''
   \<and> 0 \<le> (orDefault (q_page \<lparr>q_page = Some 2, q_limit = Some 1, q_showAll = None\<rparr>) 1 - 1)
          * orDefault (q_limit \<lparr>q_page = Some 2, q_limit = Some 1, q_showAll = None\<rparr>) 10
   \<and> (\<exists>ts. getTickets alice \<lparr>q_page = Some 2, q_limit = Some 1, q_showAll = None\<rparr>
               [sampleTicket, bobsTicket, secondTicket] = (Inr ts, [sampleTicket, bobsTicket, secondTicket])
          \<and> set ts = {t \<in> set [sampleTicket, bobsTicket, secondTicket]. userId t = uid alice}
          \<and> sorted_wrt (\<lambda>x y. createdAt y \<le> createdAt x) ts)
   \<and> (\<exists>pg. getServiceRequests alice \<lparr>q_page = Some 2, q_limit = Some 1, q_showAll = None\<rparr>
               [sampleRequest, secondRequest] = (Inr pg, [sampleRequest, secondRequest])
          \<and> requests pg = [sampleRequest] \<and> total pg = 2)"
proof -
  let ?q = "\<lparr>q_page = Some 2, q_limit = Some 1, q_showAll = None\<rparr>"
  have sk: "0 \<le> (orDefault (q_page ?q) 1 - 1) * orDefault (q_limit ?q) 10"
    by (simp add: orDefault_def)
  note T = listing_for_non_admin [OF alice_role, where q = ?q
      and tdocs = "[sampleTicket, bobsTicket, secondTicket]" and rdocs = "[sampleRequest, secondRequest]"]
  from T [THEN conjunct1]
  have A: "\<exists>ts. getTickets alice ?q [sampleTicket, bobsTicket, secondTicket]
               = (Inr ts, [sampleTicket, bobsTicket, secondTicket])
          \<and> set ts = {t \<in> set [sampleTicket, bobsTicket, secondTicket]. userId t = uid alice}
          \<and> sorted_wrt (\<lambda>x y. createdAt y \<le> createdAt x) ts" by blast
  from mp [OF T [THEN conjunct2] sk]
  obtain pg where pg: "getServiceRequests alice ?q [sampleRequest, secondRequest] = (Inr pg, [sampleRequest, secondRequest])"
    "requests pg = take (nat \<bar>orDefault (q_limit ?q) 10\<bar>)
                    (drop (nat ((orDefault (q_page ?q) 1 - 1) * orDefault (q_limit ?q) 10))
                       (sortNewest (filter (\<lambda>r. userId r = uid alice) [sampleRequest, secondRequest])))"
    "total pg = int (length (filter (\<lambda>r. userId r = uid alice) [sampleRequest, secondRequest]))"
    by blast
  from pg(2) have r: "requests pg = [sampleRequest]"
    by (simp only: alices_requests_newest_first) (simp add: orDefault_def)
  from pg(3) have t: "total pg = 2"
    by (simp add: sampleRequest_def secondRequest_def alice_def)
  from pg(1) r t have B: "\<exists>pg. getServiceRequests alice ?q [sampleRequest, secondRequest]
               = (Inr pg, [sampleRequest, secondRequest])
          \<and> requests pg = [sampleRequest] \<and> total pg = 2" by blast
  show ?thesis by (intro conjI alice_role sk A B)
qed

text \<open>
  Claim C8 as stated fails for tickets: with \<^verbatim>\<open>page=1&limit=1\<close> in the query the ticket
  listing still returns both tickets of the actor.
\<close>

theorem ticket_listing_ignores_limit:
  "role alice \<noteq> ''admin''
   \<and> getTickets alice \<lparr>q_page = Some 1, q_limit = Some 1, q_showAll = None\<rparr> [sampleTicket, secondTicket]
       = (Inr [secondTicket, sampleTicket], [sampleTicket, secondTicket])
   \<and> length [secondTicket, sampleTicket] = 2"
  by (simp add: getTickets_def Let_def sortNewest_def sampleTicket_def secondTicket_def alice_def)






end
